theory Spec2Isabelle
  imports Main
begin

section \<open>Non-ASCII characters of the sources\<close>

text \<open>
  The source files are UTF-8. A \<^typ>\<open>string\<close> is a list of bytes, so every character of
  the sources beyond ASCII is written as its UTF-8 byte sequence.
\<close>

definition check_mark :: string where
  \<comment> \<open>U+2714 HEAVY CHECK MARK\<close>
  "check_mark = [CHR 0xE2, CHR 0x9C, CHR 0x94]"

definition cross_mark :: string where
  \<comment> \<open>U+2716 HEAVY MULTIPLICATION X\<close>
  "cross_mark = [CHR 0xE2, CHR 0x9C, CHR 0x96]"

definition em_dash :: string where
  \<comment> \<open>U+2014 EM DASH\<close>
  "em_dash = [CHR 0xE2, CHR 0x80, CHR 0x94]"

definition star :: string where
  \<comment> \<open>U+2605 BLACK STAR\<close>
  "star = [CHR 0xE2, CHR 0x98, CHR 0x85]"


section \<open>check\_files.sh\<close>

text \<open>
  What \<^verbatim>\<open>stat\<close> finds at a path once symbolic links are followed. The script only
  asks \<^verbatim>\<open>[[ -f "$f" ]]\<close>, which holds for a regular file and for nothing else.
\<close>

datatype file_kind = Absent | RegularFile | Directory | Special

type_synonym filesystem = "string \<Rightarrow> file_kind"

definition test_f :: "filesystem \<Rightarrow> string \<Rightarrow> bool" where
  "test_f fs p = (fs p = RegularFile)"

definition required :: "string list" where
  "required =
    [''backend/requirements.txt'',
     ''backend/app/main.py'',
     ''backend/app/bot_worker.py'',
     ''backend/app/services/db.py'',
     ''backend/app/handlers/start.py'',
     ''backend/app/models.py'',
     ''backend/app/services/payments.py'',
     ''db/schema.sql'',
     ''frontend-miniapp/package.json'',
     ''frontend-miniapp/index.html'',
     ''frontend-miniapp/vite.config.js'',
     ''frontend-miniapp/src/main.jsx'',
     ''frontend-miniapp/src/App.jsx'',
     ''frontend-miniapp/src/utils/telegram.js'',
     ''.gitignore'',
     ''backend/.env'']"

text \<open>
  The \<^verbatim>\<open>for f in "${required[@]}"\<close> loop, with the array \<^verbatim>\<open>missing\<close> as accumulator:
  \<^verbatim>\<open>missing+=("$f")\<close> appends at the end.
\<close>

fun missing_loop :: "filesystem \<Rightarrow> string list \<Rightarrow> string list \<Rightarrow> string list" where
  "missing_loop fs [] missing = missing"
| "missing_loop fs (f # rest) missing =
     (if \<not> test_f fs f then missing_loop fs rest (missing @ [f])
      else missing_loop fs rest missing)"

record script_result =
  stdout :: "string list"   \<comment> \<open>the lines written by \<^verbatim>\<open>echo\<close>, in order\<close>
  exit_status :: nat

definition check_files :: "filesystem \<Rightarrow> script_result" where
  "check_files fs =
     (let missing = missing_loop fs required [] in
      if length missing = 0
      then \<lparr>stdout = [check_mark @ '' All expected files are present.''], exit_status = 0\<rparr>
      else \<lparr>stdout = (cross_mark @ '' Missing files:'') # map (\<lambda>m. '' - '' @ m) missing,
            exit_status = 2\<rparr>)"

definition all_present :: "filesystem \<Rightarrow> bool" where
  "all_present fs = list_all (\<lambda>p. fs p = RegularFile) required"

definition fs_complete :: filesystem where
  "fs_complete = (\<lambda>p. RegularFile)"

definition fs_partial :: filesystem where
  \<comment> \<open>a checkout without the untracked \<^verbatim>\<open>backend/.env\<close>, and with a directory where
      \<^verbatim>\<open>db/schema.sql\<close> should be\<close>
  "fs_partial = (\<lambda>p. if p = ''backend/.env'' then Absent
                      else if p = ''db/schema.sql'' then Directory else RegularFile)"


section \<open>The browser side: host objects and effects\<close>

text \<open>
  What \<^verbatim>\<open>JSON.stringify\<close> hands back when it returns: a string of JSON text, or
  undefined. This is also what \<^verbatim>\<open>sendData\<close> is called with.
\<close>

datatype json_result = JsonText string | JsonUndefined

text \<open>The effects a handler has on its host, in the order they happen.\<close>

datatype event =
    Alert string                 \<comment> \<open>\<^verbatim>\<open>alert(msg)\<close>\<close>
  | WindowOpen string string     \<comment> \<open>\<^verbatim>\<open>window.open(url, target)\<close>\<close>
  | OpenTelegramLink string      \<comment> \<open>\<^verbatim>\<open>tg.openTelegramLink(url)\<close>\<close>
  | Expand                       \<comment> \<open>\<^verbatim>\<open>tg.expand()\<close>\<close>
  | SendData json_result         \<comment> \<open>\<^verbatim>\<open>tg.sendData(payload)\<close>\<close>
  | ConsoleWarn string           \<comment> \<open>\<^verbatim>\<open>console.warn(msg)\<close>\<close>

datatype 'a outcome = Returns 'a | Throws

text \<open>
  The object the Telegram client provides as \<^verbatim>\<open>window.Telegram.WebApp\<close>. For each of
  the methods the code uses: whether the object has it, and for \<^verbatim>\<open>expand\<close> and
  \<^verbatim>\<open>sendData\<close> whether the call throws. Calling a method the object does not have
  throws a TypeError, and nothing is called.
\<close>

record webapp =
  has_expand :: bool
  expand_throws :: bool
  has_sendData :: bool
  sendData_throws :: "json_result \<Rightarrow> bool"
  has_openTelegramLink :: bool

text \<open>
  \<^verbatim>\<open>window.Telegram\<close>: falsy (\<open>None\<close>), or an object whose property \<^verbatim>\<open>WebApp\<close> is
  an object or undefined.
\<close>

record window =
  Telegram :: "webapp option option"

datatype 'a js_ref = Null | Undefined | Object 'a


section \<open>SubscriptionsPlans.jsx\<close>

record plan =
  code :: string
  title :: string
  desc :: string
  stars :: nat

definition plans :: "plan list" where
  "plans =
    [\<lparr>code = ''PRO_MONTH'', title = ''Pro '' @ em_dash @ '' 30 days'',
      desc = ''Advanced analytics, campaigns & mass DM.'', stars = 300\<rparr>,
     \<lparr>code = ''PRO_QUARTER'', title = ''Pro '' @ em_dash @ '' 90 days'',
      desc = ''3 months at a discount.'', stars = 800\<rparr>]"

text \<open>
  \<^verbatim>\<open>import.meta.env.VITE_BOT_USERNAME\<close> is a string or undefined. \<^verbatim>\<open>!botUsername\<close> holds
  for undefined and for the empty string.
\<close>

definition falsy :: "string option \<Rightarrow> bool" where
  "falsy s = (case s of None \<Rightarrow> True | Some u \<Rightarrow> u = [])"

definition openInChat :: "string option \<Rightarrow> string \<Rightarrow> event list" where
  "openInChat botUsername c =
     (if falsy botUsername
      then [Alert ''VITE_BOT_USERNAME is not set. Add it to frontend-miniapp/.env'']
      else [WindowOpen (''https://t.me/'' @ the botUsername @ ''?start=BUY_PRO_'' @ c) ''_blank''])"

definition digits :: string where
  "digits = ''0123456789abcdef''"

text \<open>Number to string, as \<^verbatim>\<open>{p.stars}\<close> renders a non-negative integer.\<close>

fun show_nat :: "nat \<Rightarrow> string" where
  "show_nat n =
     (if n < 10 then [digits ! n] else show_nat (n div 10) @ [digits ! (n mod 10)])"

text \<open>
  What the page shows for one plan, and what a click on its button does (the effects of the
  \<^verbatim>\<open>onClick\<close> handler).
\<close>

record plan_card =
  card_title :: string
  card_desc :: string
  card_price :: string
  card_button :: string
  card_onClick :: "event list"

definition SubscriptionPlans :: "string option \<Rightarrow> plan_card list" where
  "SubscriptionPlans botUsername =
     map (\<lambda>p. \<lparr>card_title = title p, card_desc = desc p,
                card_price = show_nat (stars p) @ star,
                card_button = ''Pay in Telegram (Stars)'',
                card_onClick = openInChat botUsername (code p)\<rparr>) plans"


section \<open>App.jsx\<close>

text \<open>
  \<^verbatim>\<open>openInChatPay\<close> reads the environment value and the React state \<^verbatim>\<open>tg\<close>, which is
  null until the mount effect has stored \<^verbatim>\<open>window.Telegram.WebApp\<close> in it.
\<close>

definition openInChatPay :: "string option \<Rightarrow> webapp option \<Rightarrow> event list" where
  "openInChatPay env tg =
     (let botUsername = (if falsy env then [] else the env) in
      if botUsername = []
      then [Alert ''Bot username missing. Set VITE_BOT_USERNAME in .env.'']
      else
        (let url = ''https://t.me/'' @ botUsername @ ''?start=BUY_PRO'' in
         if (case tg of None \<Rightarrow> False | Some w \<Rightarrow> has_openTelegramLink w)
         then [OpenTelegramLink url]
         else [WindowOpen url ''_blank'']))"

record card =
  Card_title :: string
  Card_price :: string
  Card_period :: string
  Card_features :: "string list"
  Card_cta :: string
  Card_onClick :: "event list"
  Card_secondary :: bool

record app_view =
  heading :: string
  copy :: string
  cards :: "card list"

definition App :: "string option \<Rightarrow> webapp option \<Rightarrow> app_view" where
  "App env tg =
     \<lparr>heading = ''Subscriptions'',
      copy = ''Pay safely with Telegram Stars inside the chat. No external providers.'',
      cards =
       [\<lparr>Card_title = ''Free'', Card_price = ''0'' @ star, Card_period = ''forever'',
         Card_features = [''Basic join tracking'', ''Force-join gate'', ''Tenant dashboard''],
         Card_cta = ''Current Plan'', Card_onClick = [], Card_secondary = True\<rparr>,
        \<lparr>Card_title = ''Pro'', Card_price = ''1000'' @ star, Card_period = ''30 days'',
         Card_features = [''Advanced analytics & reports'', ''Mass messaging (rate-limited)'',
                          ''Invite link campaigns'', ''Priority support''],
         Card_cta = ''Pay in Chat'', Card_onClick = openInChatPay env tg,
         Card_secondary = False\<rparr>]\<rparr>"

text \<open>A deep-link open: a call that navigates to a URL.\<close>

fun navigation :: "event \<Rightarrow> string option" where
  "navigation (WindowOpen url target) = Some url"
| "navigation (OpenTelegramLink url) = Some url"
| "navigation _ = None"

definition navigations :: "event list \<Rightarrow> string list" where
  "navigations es = List.map_filter navigation es"


section \<open>utils/telegram.js\<close>

text \<open>
  \<^verbatim>\<open>tg.expand()\<close>: on undefined the property read throws a TypeError, and so does the
  call when the object has no such method; in both cases nothing is called.
\<close>

definition call_expand :: "webapp option \<Rightarrow> event list \<times> unit outcome" where
  "call_expand tg =
     (case tg of
        None \<Rightarrow> ([], Throws)
      | Some obj \<Rightarrow>
         if has_expand obj then ([Expand], if expand_throws obj then Throws else Returns ())
         else ([], Throws))"

text \<open>\<^verbatim>\<open>try { ... } catch(e) {}\<close>: the effects stay, the exception is dropped.\<close>

definition try_catch_empty :: "event list \<times> unit outcome \<Rightarrow> event list \<times> unit outcome" where
  "try_catch_empty r = (fst r, Returns ())"

definition initTelegramWebApp :: "window \<Rightarrow> event list \<times> webapp js_ref outcome" where
  "initTelegramWebApp w =
     (case Telegram w of
        None \<Rightarrow> ([], Returns Null)
      | Some tg \<Rightarrow>
         (case try_catch_empty (call_expand tg) of
            (es, Throws) \<Rightarrow> (es, Throws)
          | (es, Returns u) \<Rightarrow>
             (es, Returns (case tg of None \<Rightarrow> Undefined | Some obj \<Rightarrow> Object obj))))"

text \<open>
  \<^verbatim>\<open>JSON.stringify\<close> is a built-in of the JavaScript engine. The function is modelled
  for values of any kind (the type \<open>'v\<close>) and for any behaviour \<open>stringify\<close> of the built-in
  on them: it returns a string or undefined, or it throws. In
  \<^verbatim>\<open>tg.sendData(JSON.stringify(data))\<close> the argument is evaluated before the call, so an
  exception of \<^verbatim>\<open>JSON.stringify\<close> comes first; then a bridge without \<^verbatim>\<open>sendData\<close>
  gives a TypeError and no call.
\<close>

definition sendDataToBot ::
  "('v \<Rightarrow> json_result outcome) \<Rightarrow> window \<Rightarrow> 'v \<Rightarrow> event list \<times> unit outcome" where
  "sendDataToBot stringify w data =
     (let tg = (case Telegram w of None \<Rightarrow> None | Some t \<Rightarrow> t) in
      case tg of
        None \<Rightarrow> ([ConsoleWarn ''Telegram WebApp not available.''], Returns ())
      | Some obj \<Rightarrow>
         (case stringify data of
            Throws \<Rightarrow> ([], Throws)
          | Returns payload \<Rightarrow>
             if has_sendData obj
             then ([SendData payload],
                   if sendData_throws obj payload then Throws else Returns ())
             else ([], Throws)))"

definition sendData_calls :: "event list \<Rightarrow> json_result list" where
  "sendData_calls es = List.map_filter (\<lambda>e. case e of SendData p \<Rightarrow> Some p | _ \<Rightarrow> None) es"


section \<open>JSON.stringify on some values\<close>

text \<open>
  A few JavaScript values to run the module on, and what \<^verbatim>\<open>JSON.stringify\<close> does with
  each of them (ECMAScript, \<^verbatim>\<open>SerializeJSONProperty\<close> and \<^verbatim>\<open>QuoteJSONString\<close>, with
  no \<^verbatim>\<open>toJSON\<close> on the prototypes): undefined, a function and a symbol give undefined, a
  BigInt throws a TypeError, a string is quoted. Strings are UTF-8 byte strings of
  well-formed text.
\<close>

datatype sample_value =
    UndefinedValue
  | NullValue
  | BoolValue bool
  | StringValue string
  | BigIntValue int
  | FunctionValue
  | SymbolValue

definition dquote :: char where
  "dquote = CHR 0x22"

definition backslash :: char where
  "backslash = CHR 0x5C"

definition hex_digit :: "nat \<Rightarrow> char" where
  \<comment> \<open>for \<open>d < 16\<close>; lower case, as \<^verbatim>\<open>QuoteJSONString\<close> writes \<^verbatim>\<open>\uXXXX\<close>\<close>
  "hex_digit d = digits ! d"

definition quote_char :: "char \<Rightarrow> string" where
  "quote_char c =
     (if c = CHR 0x08 then [backslash, CHR ''b'']
      else if c = CHR 0x09 then [backslash, CHR ''t'']
      else if c = CHR 0x0A then [backslash, CHR ''n'']
      else if c = CHR 0x0C then [backslash, CHR ''f'']
      else if c = CHR 0x0D then [backslash, CHR ''r'']
      else if c = dquote then [backslash, dquote]
      else if c = backslash then [backslash, backslash]
      else if (of_char c :: nat) < 0x20
      then [backslash, CHR ''u'', CHR ''0'', CHR ''0'',
            hex_digit (of_char c div 16), hex_digit (of_char c mod 16)]
      else [c])"

definition QuoteJSONString :: "string \<Rightarrow> string" where
  "QuoteJSONString s = [dquote] @ concat (map quote_char s) @ [dquote]"

fun JSON_stringify :: "sample_value \<Rightarrow> json_result outcome" where
  "JSON_stringify UndefinedValue = Returns JsonUndefined"
| "JSON_stringify NullValue = Returns (JsonText ''null'')"
| "JSON_stringify (BoolValue b) = Returns (JsonText (if b then ''true'' else ''false''))"
| "JSON_stringify (StringValue s) = Returns (JsonText (QuoteJSONString s))"
| "JSON_stringify (BigIntValue i) = Throws"
| "JSON_stringify FunctionValue = Returns JsonUndefined"
| "JSON_stringify SymbolValue = Returns JsonUndefined"


section \<open>vite.config.js\<close>

datatype host_setting = HostFlag bool | HostName string

record server_options =
  host :: host_setting        \<comment> \<open>\<^verbatim>\<open>true\<close>: listen on all interfaces\<close>
  port :: nat
  strictPort :: bool
  allowedHosts :: "string list"

record vite_config =
  plugins :: "string list"
  server :: server_options

definition config :: vite_config where
  "config =
     \<lparr>plugins = [''react()''],
      server = \<lparr>host = HostFlag True, port = 5173, strictPort = True,
                allowedHosts = [''.ngrok-free.app'', ''.trycloudflare.com'', ''localhost'']\<rparr>\<rparr>"


text \<open>Hosts used as concrete inputs.\<close>

definition plain_webapp :: webapp where
  "plain_webapp = \<lparr>has_expand = True, expand_throws = False, has_sendData = True,
                    sendData_throws = (\<lambda>p. False), has_openTelegramLink = True\<rparr>"

definition failing_webapp :: webapp where
  \<comment> \<open>a bridge without \<^verbatim>\<open>openTelegramLink\<close> whose \<^verbatim>\<open>expand\<close> and \<^verbatim>\<open>sendData\<close> throw\<close>
  "failing_webapp = \<lparr>has_expand = True, expand_throws = True, has_sendData = True,
                      sendData_throws = (\<lambda>p. True), has_openTelegramLink = False\<rparr>"

definition bare_webapp :: webapp where
  \<comment> \<open>an object with none of the methods\<close>
  "bare_webapp = \<lparr>has_expand = False, expand_throws = False, has_sendData = False,
                   sendData_throws = (\<lambda>p. False), has_openTelegramLink = False\<rparr>"

definition telegram_window :: "webapp \<Rightarrow> window" where
  "telegram_window tg = \<lparr>Telegram = Some (Some tg)\<rparr>"

definition browser_window :: window where
  \<comment> \<open>a page opened outside Telegram\<close>
  "browser_window = \<lparr>Telegram = None\<rparr>"


section \<open>db/schema.sql\<close>

subsection \<open>The statements\<close>

text \<open>
  The file is a sequence of \<^verbatim>\<open>CREATE TABLE\<close> statements. A column has a name, a type
  name, an optional \<^verbatim>\<open>DEFAULT\<close> and a list of column constraints; a table may carry table
  constraints. A \<^verbatim>\<open>REFERENCES\<close> clause without \<^verbatim>\<open>ON DELETE\<close> has the action
  \<^verbatim>\<open>NO ACTION\<close>.
\<close>

datatype default_expr = GenRandomUuid | Now | TextLiteral string | BoolLiteral bool

datatype referential_action = NoAction | Cascade

datatype column_constraint =
    PrimaryKey
  | NotNull
  | References string string referential_action

datatype table_constraint = Unique "string list"

record column =
  col_name :: string
  col_type :: string
  col_default :: "default_expr option"
  col_constraints :: "column_constraint list"

record table =
  tbl_name :: string
  tbl_columns :: "column list"
  tbl_constraints :: "table_constraint list"

datatype statement = CreateTable table

definition col :: "string \<Rightarrow> string \<Rightarrow> column" where
  \<comment> \<open>a column with neither default nor constraint\<close>
  "col n ty = \<lparr>col_name = n, col_type = ty, col_default = None, col_constraints = []\<rparr>"

definition id_column :: column where
  \<comment> \<open>\<^verbatim>\<open>id uuid PRIMARY KEY DEFAULT gen_random_uuid()\<close>, the first column of every table\<close>
  "id_column = \<lparr>col_name = ''id'', col_type = ''uuid'', col_default = Some GenRandomUuid,
                 col_constraints = [PrimaryKey]\<rparr>"

definition tenant_id_column :: column where
  \<comment> \<open>\<^verbatim>\<open>tenant_id uuid REFERENCES tenants(id) ON DELETE CASCADE\<close>\<close>
  "tenant_id_column = \<lparr>col_name = ''tenant_id'', col_type = ''uuid'', col_default = None,
                        col_constraints = [References ''tenants'' ''id'' Cascade]\<rparr>"

definition created_at_column :: column where
  \<comment> \<open>\<^verbatim>\<open>created_at timestamptz DEFAULT now()\<close>\<close>
  "created_at_column = \<lparr>col_name = ''created_at'', col_type = ''timestamptz'',
                         col_default = Some Now, col_constraints = []\<rparr>"

definition tenants :: table where
  "tenants =
     \<lparr>tbl_name = ''tenants'',
      tbl_columns =
        [id_column,
         \<lparr>col_name = ''name'', col_type = ''text'', col_default = None,
          col_constraints = [NotNull]\<rparr>,
         \<lparr>col_name = ''owner_user_id'', col_type = ''bigint'', col_default = None,
          col_constraints = [NotNull]\<rparr>,
         created_at_column],
      tbl_constraints = []\<rparr>"

definition users :: table where
  "users =
     \<lparr>tbl_name = ''users'',
      tbl_columns =
        [id_column,
         tenant_id_column,
         \<lparr>col_name = ''tg_user_id'', col_type = ''bigint'', col_default = None,
          col_constraints = [NotNull]\<rparr>,
         col ''username'' ''text'',
         col ''first_name'' ''text'',
         col ''last_name'' ''text'',
         col ''phone'' ''text'',
         col ''country'' ''text'',
         \<lparr>col_name = ''language'', col_type = ''text'', col_default = Some (TextLiteral ''en''),
          col_constraints = []\<rparr>,
         \<lparr>col_name = ''is_premium'', col_type = ''boolean'',
          col_default = Some (BoolLiteral False), col_constraints = []\<rparr>,
         created_at_column],
      tbl_constraints = [Unique [''tenant_id'', ''tg_user_id'']]\<rparr>"

definition chats :: table where
  "chats =
     \<lparr>tbl_name = ''chats'',
      tbl_columns =
        [id_column,
         tenant_id_column,
         \<lparr>col_name = ''tg_chat_id'', col_type = ''bigint'', col_default = None,
          col_constraints = [NotNull]\<rparr>,
         col ''title'' ''text'',
         col ''type'' ''text'',
         \<lparr>col_name = ''is_active'', col_type = ''boolean'',
          col_default = Some (BoolLiteral True), col_constraints = []\<rparr>,
         created_at_column],
      tbl_constraints = [Unique [''tenant_id'', ''tg_chat_id'']]\<rparr>"

definition invite_links :: table where
  "invite_links =
     \<lparr>tbl_name = ''invite_links'',
      tbl_columns =
        [id_column,
         tenant_id_column,
         \<lparr>col_name = ''chat_id'', col_type = ''uuid'', col_default = None,
          col_constraints = [References ''chats'' ''id'' Cascade]\<rparr>,
         \<lparr>col_name = ''invite_link'', col_type = ''text'', col_default = None,
          col_constraints = [NotNull]\<rparr>,
         col ''campaign_name'' ''text'',
         col ''created_by'' ''bigint'',
         created_at_column],
      tbl_constraints = []\<rparr>"

definition join_events :: table where
  "join_events =
     \<lparr>tbl_name = ''join_events'',
      tbl_columns =
        [id_column,
         tenant_id_column,
         \<lparr>col_name = ''chat_id'', col_type = ''uuid'', col_default = None,
          col_constraints = [References ''chats'' ''id'' Cascade]\<rparr>,
         col ''tg_user_id'' ''bigint'',
         \<lparr>col_name = ''invite_link_id'', col_type = ''uuid'', col_default = None,
          col_constraints = [References ''invite_links'' ''id'' NoAction]\<rparr>,
         col ''event_type'' ''text'',
         \<lparr>col_name = ''join_at'', col_type = ''timestamptz'', col_default = Some Now,
          col_constraints = []\<rparr>],
      tbl_constraints = []\<rparr>"

definition subscriptions :: table where
  "subscriptions =
     \<lparr>tbl_name = ''subscriptions'',
      tbl_columns =
        [id_column,
         tenant_id_column,
         col ''tg_user_id'' ''bigint'',
         col ''plan'' ''text'',
         col ''currency'' ''text'',
         col ''amount'' ''numeric'',
         col ''provider'' ''text'',
         col ''provider_payload'' ''jsonb'',
         \<lparr>col_name = ''started_at'', col_type = ''timestamptz'', col_default = Some Now,
          col_constraints = []\<rparr>,
         col ''expires_at'' ''timestamptz''],
      tbl_constraints = []\<rparr>"

definition payments :: table where
  "payments =
     \<lparr>tbl_name = ''payments'',
      tbl_columns =
        [id_column,
         tenant_id_column,
         col ''tg_user_id'' ''bigint'',
         col ''amount'' ''numeric'',
         col ''currency'' ''text'',
         col ''method'' ''text'',
         col ''provider_payload'' ''jsonb'',
         col ''status'' ''text'',
         created_at_column],
      tbl_constraints = []\<rparr>"

definition schema_sql :: "statement list" where
  "schema_sql =
     [CreateTable tenants, CreateTable users, CreateTable chats, CreateTable invite_links,
      CreateTable join_events, CreateTable subscriptions, CreateTable payments]"

definition tables :: "statement list \<Rightarrow> table list" where
  "tables ss = map (\<lambda>s. case s of CreateTable t \<Rightarrow> t) ss"


subsection \<open>Reading the constraints off a schema\<close>

text \<open>The type names PostgreSQL provides by itself, as far as the file uses them.\<close>

definition builtin_types :: "string list" where
  "builtin_types = [''uuid'', ''text'', ''bigint'', ''boolean'', ''numeric'', ''timestamptz'', ''jsonb'']"

definition column_constraints_of :: "table list \<Rightarrow> (string \<times> string \<times> column_constraint) list" where
  \<comment> \<open>every column constraint, with its table and column\<close>
  "column_constraints_of ts =
     concat (map (\<lambda>t. concat (map (\<lambda>c. map (\<lambda>k. (tbl_name t, col_name c, k)) (col_constraints c))
                                    (tbl_columns t))) ts)"

definition table_constraints_of :: "table list \<Rightarrow> (string \<times> table_constraint) list" where
  "table_constraints_of ts = concat (map (\<lambda>t. map (\<lambda>k. (tbl_name t, k)) (tbl_constraints t)) ts)"

fun is_key_constraint :: "column_constraint \<Rightarrow> bool" where
  \<comment> \<open>a primary key or a foreign key\<close>
  "is_key_constraint PrimaryKey = True"
| "is_key_constraint (References t c a) = True"
| "is_key_constraint NotNull = False"

record foreign_key =
  fk_table :: string
  fk_column :: string
  fk_ref_table :: string
  fk_ref_column :: string
  fk_on_delete :: referential_action

fun foreign_key_of :: "string \<times> string \<times> column_constraint \<Rightarrow> foreign_key list" where
  "foreign_key_of (t, c, References t' c' a) =
     [\<lparr>fk_table = t, fk_column = c, fk_ref_table = t', fk_ref_column = c', fk_on_delete = a\<rparr>]"
| "foreign_key_of (t, c, k) = []"

definition foreign_keys :: "table list \<Rightarrow> foreign_key list" where
  "foreign_keys ts = concat (map foreign_key_of (column_constraints_of ts))"

definition has_tenant_id :: "table \<Rightarrow> bool" where
  \<comment> \<open>exactly one column is called \<^verbatim>\<open>tenant_id\<close>, and it is declared
      \<^verbatim>\<open>tenant_id uuid REFERENCES tenants(id) ON DELETE CASCADE\<close>, with nothing else\<close>
  "has_tenant_id t =
     (filter (\<lambda>c. col_name c = ''tenant_id'') (tbl_columns t) =
        [\<lparr>col_name = ''tenant_id'', col_type = ''uuid'', col_default = None,
          col_constraints = [References ''tenants'' ''id'' Cascade]\<rparr>])"


subsection \<open>The database states a schema admits\<close>

text \<open>
  A value of one of the column types; \<^verbatim>\<open>NULL\<close> is the absence of a value. A row lists the
  columns that are not \<^verbatim>\<open>NULL\<close> with their values. A database state is the list of all
  rows, each with the name of its table.
\<close>

datatype val =
    VUuid nat
  | VBigint int
  | VText string
  | VBool bool
  | VNumeric int          \<comment> \<open>integral amounts only\<close>
  | VTimestamptz int
  | VJsonb string

type_synonym row = "(string \<times> val) list"

type_synonym db = "(string \<times> row) list"

definition type_of_val :: "val \<Rightarrow> string" where
  "type_of_val v =
     (case v of VUuid n \<Rightarrow> ''uuid'' | VBigint i \<Rightarrow> ''bigint'' | VText s \<Rightarrow> ''text''
      | VBool b \<Rightarrow> ''boolean'' | VNumeric i \<Rightarrow> ''numeric'' | VTimestamptz i \<Rightarrow> ''timestamptz''
      | VJsonb j \<Rightarrow> ''jsonb'')"

definition in_range :: "val \<Rightarrow> bool" where
  \<comment> \<open>\<^verbatim>\<open>bigint\<close> is a signed 64-bit integer\<close>
  "in_range v = (case v of VBigint i \<Rightarrow> - (2 ^ 63) \<le> i \<and> i < 2 ^ 63 | _ \<Rightarrow> True)"

definition get :: "row \<Rightarrow> string \<Rightarrow> val option" where
  "get r c = map_of r c"

definition lookup_table :: "table list \<Rightarrow> string \<Rightarrow> table option" where
  "lookup_table ts n = find (\<lambda>t. tbl_name t = n) ts"

definition required_column :: "column \<Rightarrow> bool" where
  \<comment> \<open>\<^verbatim>\<open>NOT NULL\<close>, also as part of \<^verbatim>\<open>PRIMARY KEY\<close>\<close>
  "required_column c =
     (NotNull \<in> set (col_constraints c) \<or> PrimaryKey \<in> set (col_constraints c))"

definition row_ok :: "table \<Rightarrow> row \<Rightarrow> bool" where
  \<comment> \<open>the row names columns of the table, once each, with values of the column's type, and
      leaves no required column \<^verbatim>\<open>NULL\<close>\<close>
  "row_ok t r =
     (distinct (map fst r) \<and>
      list_all (\<lambda>(c, v). in_range v \<and>
                  list_ex (\<lambda>k. col_name k = c \<and> col_type k = type_of_val v) (tbl_columns t)) r \<and>
      list_all (\<lambda>k. \<not> required_column k \<or> get r (col_name k) \<noteq> None) (tbl_columns t))"

definition unique_keys :: "table \<Rightarrow> string list list" where
  \<comment> \<open>the column lists that must be unique: the primary key and every \<^verbatim>\<open>UNIQUE\<close>\<close>
  "unique_keys t =
     map (\<lambda>c. [col_name c]) (filter (\<lambda>c. PrimaryKey \<in> set (col_constraints c)) (tbl_columns t))
     @ map (\<lambda>k. case k of Unique cs \<Rightarrow> cs) (tbl_constraints t)"

definition rows_of :: "db \<Rightarrow> string \<Rightarrow> row list" where
  "rows_of d n = map snd (filter (\<lambda>x. fst x = n) d)"

definition unique_ok :: "table \<Rightarrow> row list \<Rightarrow> bool" where
  \<comment> \<open>no two rows agree on a key; a key with a \<^verbatim>\<open>NULL\<close> in it equals no other\<close>
  "unique_ok t rs =
     list_all (\<lambda>cs. distinct (filter (\<lambda>k. None \<notin> set k) (map (\<lambda>r. map (get r) cs) rs)))
       (unique_keys t)"

definition refs :: "foreign_key \<Rightarrow> string \<times> row \<Rightarrow> string \<times> row \<Rightarrow> bool" where
  \<comment> \<open>the row \<open>x\<close> references the row \<open>y\<close> through the foreign key\<close>
  "refs k x y =
     (fst x = fk_table k \<and> fst y = fk_ref_table k \<and> get (snd x) (fk_column k) \<noteq> None \<and>
      get (snd x) (fk_column k) = get (snd y) (fk_ref_column k))"

definition fk_ok :: "foreign_key list \<Rightarrow> db \<Rightarrow> bool" where
  \<comment> \<open>every foreign key value is \<^verbatim>\<open>NULL\<close> or the key of a row that exists\<close>
  "fk_ok ks d =
     list_all (\<lambda>x. list_all (\<lambda>k. fst x \<noteq> fk_table k \<or> get (snd x) (fk_column k) = None \<or>
                                  list_ex (refs k x) d) ks) d"

definition admits :: "statement list \<Rightarrow> db \<Rightarrow> bool" where
  "admits ss d =
     (list_all (\<lambda>x. case lookup_table (tables ss) (fst x) of
                      None \<Rightarrow> False | Some t \<Rightarrow> row_ok t (snd x)) d \<and>
      list_all (\<lambda>t. unique_ok t (rows_of d (tbl_name t))) (tables ss) \<and>
      fk_ok (foreign_keys (tables ss)) d)"


subsection \<open>Deleting rows\<close>

text \<open>
  \<^verbatim>\<open>DELETE FROM ... WHERE ...\<close>: the rows chosen are deleted; a row that references a
  deleted row through an \<^verbatim>\<open>ON DELETE CASCADE\<close> key is deleted with it, and so on; at the end
  of the statement every foreign key of the rows that are left must still hold, otherwise
  the statement fails and nothing is deleted.
\<close>

definition cascaded :: "foreign_key list \<Rightarrow> db \<Rightarrow> string \<times> row \<Rightarrow> bool" where
  "cascaded ks deleted x =
     list_ex (\<lambda>k. fk_on_delete k = Cascade \<and> list_ex (refs k x) deleted) ks"

function cascade :: "foreign_key list \<Rightarrow> db \<Rightarrow> db \<Rightarrow> db \<times> db" where
  "cascade ks deleted remaining =
     (if list_ex (cascaded ks deleted) remaining
      then cascade ks (deleted @ filter (cascaded ks deleted) remaining)
             (filter (\<lambda>x. \<not> cascaded ks deleted x) remaining)
      else (deleted, remaining))"
  by pat_completeness auto
termination
proof (relation "measure (\<lambda>(ks, deleted, remaining). length remaining)")
  show "wf (measure (\<lambda>(ks, deleted, remaining). length remaining))"
    by simp
next
  fix ks :: "foreign_key list" and deleted remaining :: db
  assume "list_ex (cascaded ks deleted) remaining"
  then have "filter (cascaded ks deleted) remaining \<noteq> []"
    by (simp add: list_ex_iff filter_empty_conv)
  then have "length (filter (\<lambda>x. \<not> cascaded ks deleted x) remaining) < length remaining"
    using sum_length_filter_compl [of "cascaded ks deleted" remaining] by (cases "filter (cascaded ks deleted) remaining") auto
  then show "((ks, deleted @ filter (cascaded ks deleted) remaining,
               filter (\<lambda>x. \<not> cascaded ks deleted x) remaining), (ks, deleted, remaining))
             \<in> measure (\<lambda>(ks, deleted, remaining). length remaining)"
    by simp
qed

datatype sql_error = ForeignKeyViolation

definition delete_where :: "statement list \<Rightarrow> (string \<times> row \<Rightarrow> bool) \<Rightarrow> db \<Rightarrow> sql_error + db" where
  "delete_where ss chosen d =
     (case cascade (foreign_keys (tables ss)) (filter chosen d) (filter (\<lambda>x. \<not> chosen x) d) of
        (deleted, remaining) \<Rightarrow>
          if fk_ok (foreign_keys (tables ss)) remaining then Inr remaining
          else Inl ForeignKeyViolation)"

definition is_tenant :: "val \<Rightarrow> string \<times> row \<Rightarrow> bool" where
  \<comment> \<open>the row of \<^verbatim>\<open>tenants\<close> with this \<^verbatim>\<open>id\<close>\<close>
  "is_tenant v x = (fst x = ''tenants'' \<and> get (snd x) ''id'' = Some v)"

definition delete_tenant :: "statement list \<Rightarrow> val \<Rightarrow> db \<Rightarrow> sql_error + db" where
  \<comment> \<open>\<^verbatim>\<open>DELETE FROM tenants WHERE id = v\<close>\<close>
  "delete_tenant ss v d = delete_where ss (is_tenant v) d"

definition owned_by :: "val \<Rightarrow> string \<times> row \<Rightarrow> bool" where
  \<comment> \<open>a row of another table whose \<^verbatim>\<open>tenant_id\<close> is this tenant\<close>
  "owned_by v x = (fst x \<noteq> ''tenants'' \<and> get (snd x) ''tenant_id'' = Some v)"

definition partitioned :: "db \<Rightarrow> bool" where
  \<comment> \<open>every row outside \<^verbatim>\<open>tenants\<close> is owned by a tenant that exists\<close>
  "partitioned d =
     list_all (\<lambda>x. fst x = ''tenants'' \<or>
                    (case get (snd x) ''tenant_id'' of
                       None \<Rightarrow> False
                     | Some v \<Rightarrow> list_ex (is_tenant v) d)) d"


definition tenant_consistent :: "statement list \<Rightarrow> db \<Rightarrow> bool" where
  \<comment> \<open>a row and the rows of other tables that it references have the same \<^verbatim>\<open>tenant_id\<close>\<close>
  "tenant_consistent ss d =
     list_all (\<lambda>x. list_all (\<lambda>y. list_all (\<lambda>k. fk_ref_table k = ''tenants'' \<or> \<not> refs k x y \<or>
                                get (snd x) ''tenant_id'' = get (snd y) ''tenant_id'')
                              (foreign_keys (tables ss))) d) d"

declare cascade.simps [simp del]


subsection \<open>States used as concrete inputs\<close>

definition db_orphan :: db where
  \<comment> \<open>\<^verbatim>\<open>INSERT INTO users (tg_user_id) VALUES (42)\<close> into the empty database\<close>
  "db_orphan = [(''users'', [(''id'', VUuid 1), (''tg_user_id'', VBigint 42)])]"

definition orphan_rows :: db where
  \<comment> \<open>one row for each table other than \<^verbatim>\<open>tenants\<close>, inserted without a \<^verbatim>\<open>tenant_id\<close>\<close>
  "orphan_rows =
     [(''users'', [(''id'', VUuid 1), (''tg_user_id'', VBigint 42)]),
      (''chats'', [(''id'', VUuid 2), (''tg_chat_id'', VBigint (-100))]),
      (''invite_links'', [(''id'', VUuid 3), (''invite_link'', VText ''https://t.me/+abc'')]),
      (''join_events'', [(''id'', VUuid 4), (''event_type'', VText ''join'')]),
      (''subscriptions'', [(''id'', VUuid 5), (''plan'', VText ''PRO_MONTH'')]),
      (''payments'', [(''id'', VUuid 6), (''status'', VText ''paid'')])]"

definition db_stripe :: db where
  "db_stripe =
     [(''tenants'', [(''id'', VUuid 1), (''name'', VText ''acme''), (''owner_user_id'', VBigint 7)]),
      (''subscriptions'', [(''id'', VUuid 2), (''tenant_id'', VUuid 1), (''tg_user_id'', VBigint 7),
                            (''plan'', VText ''PRO_MONTH''), (''provider'', VText ''stripe'')]),
      (''payments'', [(''id'', VUuid 3), (''tenant_id'', VUuid 1), (''tg_user_id'', VBigint 7),
                       (''method'', VText ''card''), (''status'', VText ''paid'')])]"

definition db_two_tenants :: db where
  "db_two_tenants =
     [(''tenants'', [(''id'', VUuid 1), (''name'', VText ''acme''), (''owner_user_id'', VBigint 7)]),
      (''tenants'', [(''id'', VUuid 2), (''name'', VText ''zeta''), (''owner_user_id'', VBigint 8)]),
      (''users'', [(''id'', VUuid 3), (''tenant_id'', VUuid 1), (''tg_user_id'', VBigint 7)]),
      (''users'', [(''id'', VUuid 4), (''tenant_id'', VUuid 2), (''tg_user_id'', VBigint 7)]),
      (''chats'', [(''id'', VUuid 5), (''tenant_id'', VUuid 1), (''tg_chat_id'', VBigint (-100))]),
      (''invite_links'', [(''id'', VUuid 6), (''tenant_id'', VUuid 1), (''chat_id'', VUuid 5),
                           (''invite_link'', VText ''https://t.me/+abc'')]),
      (''join_events'', [(''id'', VUuid 7), (''tenant_id'', VUuid 1), (''chat_id'', VUuid 5),
                          (''tg_user_id'', VBigint 9), (''invite_link_id'', VUuid 6),
                          (''event_type'', VText ''join'')])]"

definition db_cross_tenant :: db where
  \<comment> \<open>a join event of tenant 2 that names an invite link of tenant 1\<close>
  "db_cross_tenant =
     [(''tenants'', [(''id'', VUuid 1), (''name'', VText ''acme''), (''owner_user_id'', VBigint 7)]),
      (''tenants'', [(''id'', VUuid 2), (''name'', VText ''zeta''), (''owner_user_id'', VBigint 8)]),
      (''invite_links'', [(''id'', VUuid 6), (''tenant_id'', VUuid 1),
                           (''invite_link'', VText ''https://t.me/+abc'')]),
      (''join_events'', [(''id'', VUuid 7), (''tenant_id'', VUuid 2), (''invite_link_id'', VUuid 6)])]"


section \<open>Properties of check\_files.sh\<close>

lemma missing_loop_filter:
  "missing_loop fs ps acc = acc @ filter (\<lambda>p. fs p \<noteq> RegularFile) ps"
  by (induction ps arbitrary: acc) (simp_all add: test_f_def)

lemma filter_missing_empty:
  "filter (\<lambda>p. fs p \<noteq> RegularFile) ps = [] \<longleftrightarrow> list_all (\<lambda>p. fs p = RegularFile) ps"
  by (induction ps) simp_all

text \<open>
  C1. The required list has 16 entries and does not depend on the file system. The script
  exits with status 0, printing the one success line, exactly when every required path is
  a regular file; otherwise it exits with status 2, and what it prints after the header
  line is one line per missing required path, in the order of the list.
\<close>

theorem check_files_spec:
  "length required = 16 \<and>
   (exit_status (check_files fs) = 0 \<longleftrightarrow> all_present fs) \<and>
   check_files fs =
     (if all_present fs
      then \<lparr>stdout = [check_mark @ '' All expected files are present.''], exit_status = 0\<rparr>
      else \<lparr>stdout = (cross_mark @ '' Missing files:'') #
                      map (\<lambda>m. '' - '' @ m) (filter (\<lambda>p. fs p \<noteq> RegularFile) required),
            exit_status = 2\<rparr>)"
proof -
  have len: "length required = 16"
    by (simp add: required_def)
  have empty: "missing_loop fs required [] = [] \<longleftrightarrow> all_present fs"
    by (simp add: missing_loop_filter filter_missing_empty all_present_def)
  have run: "check_files fs =
     (if all_present fs
      then \<lparr>stdout = [check_mark @ '' All expected files are present.''], exit_status = 0\<rparr>
      else \<lparr>stdout = (cross_mark @ '' Missing files:'') #
                      map (\<lambda>m. '' - '' @ m) (filter (\<lambda>p. fs p \<noteq> RegularFile) required),
            exit_status = 2\<rparr>)"
    using empty by (simp add: check_files_def Let_def missing_loop_filter)
  have status: "exit_status (check_files fs) = 0 \<longleftrightarrow> all_present fs"
    by (simp add: run)
  from len status run show ?thesis by blast
qed

theorem check_files_spec_witness:
  "all_present fs_complete \<and>
   check_files fs_complete =
     \<lparr>stdout = [check_mark @ '' All expected files are present.''], exit_status = 0\<rparr> \<and>
   \<not> all_present fs_partial \<and>
   check_files fs_partial =
     \<lparr>stdout = [cross_mark @ '' Missing files:'', '' - db/schema.sql'', '' - backend/.env''],
      exit_status = 2\<rparr>"
proof -
  have a: "all_present fs_complete"
    by (simp add: all_present_def fs_complete_def required_def)
  have b: "\<not> all_present fs_partial"
    by (simp add: all_present_def fs_partial_def required_def)
  have f: "filter (\<lambda>p. fs_partial p \<noteq> RegularFile) required = [''db/schema.sql'', ''backend/.env'']"
    by (simp add: fs_partial_def required_def)
  show ?thesis
    using check_files_spec [of fs_complete] check_files_spec [of fs_partial] a b f by simp
qed

section \<open>Properties of the pay buttons\<close>

lemma openInChat_set:
  "u \<noteq> [] \<Longrightarrow>
   openInChat (Some u) c =
     [WindowOpen (''https://t.me/'' @ u @ ''?start=BUY_PRO_'' @ c) ''_blank'']"
  by (simp add: openInChat_def falsy_def)

lemma openInChatPay_set:
  "u \<noteq> [] \<Longrightarrow>
   openInChatPay (Some u) tg =
     (if (case tg of None \<Rightarrow> False | Some w \<Rightarrow> has_openTelegramLink w)
      then [OpenTelegramLink (''https://t.me/'' @ u @ ''?start=BUY_PRO'')]
      else [WindowOpen (''https://t.me/'' @ u @ ''?start=BUY_PRO'') ''_blank''])"
  by (simp add: openInChatPay_def falsy_def Let_def)

lemma openInChat_falsy:
  "falsy env \<Longrightarrow>
   openInChat env c = [Alert ''VITE_BOT_USERNAME is not set. Add it to frontend-miniapp/.env'']"
  by (simp add: openInChat_def)

lemma openInChatPay_falsy:
  "falsy env \<Longrightarrow>
   openInChatPay env tg = [Alert ''Bot username missing. Set VITE_BOT_USERNAME in .env.'']"
  by (simp add: openInChatPay_def)

lemma falsy_iff: "falsy env \<longleftrightarrow> \<not> (\<exists>u. env = Some u \<and> u \<noteq> [])"
  by (cases env) (simp_all add: falsy_def)

lemma App_pro_onClick: "Card_onClick (cards (App env tg) ! Suc 0) = openInChatPay env tg"
  by (simp add: App_def)

text \<open>
  C2. With a non-empty bot username \<open>u\<close>: the pay button of every plan on the plans page
  opens exactly \<^verbatim>\<open>https://t.me/\<close> + \<open>u\<close> + \<^verbatim>\<open>?start=BUY_PRO_\<close> + code with
  \<^verbatim>\<open>window.open(url, "_blank")\<close> and does nothing else (and so does \<open>openInChat\<close> for any
  code); the Pro pay button of App opens exactly \<^verbatim>\<open>https://t.me/\<close> + \<open>u\<close> +
  \<^verbatim>\<open>?start=BUY_PRO\<close>, through \<^verbatim>\<open>openTelegramLink\<close> when the stored bridge has it and
  through \<^verbatim>\<open>window.open(url, "_blank")\<close> otherwise.
\<close>

theorem pay_buttons_deep_link:
  "u \<noteq> [] \<Longrightarrow>
   map card_onClick (SubscriptionPlans (Some u)) =
     map (\<lambda>p. [WindowOpen (''https://t.me/'' @ u @ ''?start=BUY_PRO_'' @ code p) ''_blank''])
       plans \<and>
   openInChat (Some u) c =
     [WindowOpen (''https://t.me/'' @ u @ ''?start=BUY_PRO_'' @ c) ''_blank''] \<and>
   Card_onClick (cards (App (Some u) tg) ! 1) = openInChatPay (Some u) tg \<and>
   openInChatPay (Some u) tg =
     (if (case tg of None \<Rightarrow> False | Some w \<Rightarrow> has_openTelegramLink w)
      then [OpenTelegramLink (''https://t.me/'' @ u @ ''?start=BUY_PRO'')]
      else [WindowOpen (''https://t.me/'' @ u @ ''?start=BUY_PRO'') ''_blank''])"
  by (simp add: SubscriptionPlans_def openInChat_set openInChatPay_set App_pro_onClick)

theorem pay_buttons_deep_link_witness:
  "map card_onClick (SubscriptionPlans (Some ''daaskobot'')) =
     [[WindowOpen ''https://t.me/daaskobot?start=BUY_PRO_PRO_MONTH'' ''_blank''],
      [WindowOpen ''https://t.me/daaskobot?start=BUY_PRO_PRO_QUARTER'' ''_blank'']] \<and>
   Card_onClick (cards (App (Some ''daaskobot'') (Some plain_webapp)) ! 1) =
     [OpenTelegramLink ''https://t.me/daaskobot?start=BUY_PRO''] \<and>
   Card_onClick (cards (App (Some ''daaskobot'') None) ! 1) =
     [WindowOpen ''https://t.me/daaskobot?start=BUY_PRO'' ''_blank'']"
  using pay_buttons_deep_link [of "''daaskobot''" _ "Some plain_webapp"]
        pay_buttons_deep_link [of "''daaskobot''" _ None]
  by (simp add: plans_def plain_webapp_def)

text \<open>
  C8. When the bot username is undefined or empty, each pay action shows its alert and does
  nothing else: no \<^verbatim>\<open>window.open\<close>, no \<^verbatim>\<open>openTelegramLink\<close>. A deep-link open happens
  exactly when the bot username is a non-empty string.
\<close>

theorem pay_without_username:
  "(falsy env \<longrightarrow>
      openInChat env c =
        [Alert ''VITE_BOT_USERNAME is not set. Add it to frontend-miniapp/.env''] \<and>
      openInChatPay env tg =
        [Alert ''Bot username missing. Set VITE_BOT_USERNAME in .env.'']) \<and>
   (navigations (openInChat env c) \<noteq> [] \<longleftrightarrow> (\<exists>u. env = Some u \<and> u \<noteq> [])) \<and>
   (navigations (openInChatPay env tg) \<noteq> [] \<longleftrightarrow> (\<exists>u. env = Some u \<and> u \<noteq> []))"
proof (cases "falsy env")
  case True
  then have "\<not> (\<exists>u. env = Some u \<and> u \<noteq> [])"
    by (simp add: falsy_iff)
  with True show ?thesis
    by (simp add: openInChat_falsy openInChatPay_falsy navigations_def map_filter_simps)
next
  case False
  then obtain u where u: "env = Some u" "u \<noteq> []"
    by (auto simp: falsy_iff)
  then show ?thesis
    by (simp add: openInChat_set openInChatPay_set navigations_def map_filter_simps falsy_def)
qed

theorem pay_without_username_witness:
  "falsy None \<and> falsy (Some []) \<and>
   navigations (openInChat None ''PRO_MONTH'') = [] \<and>
   navigations (openInChat (Some []) ''PRO_MONTH'') = [] \<and>
   navigations (openInChatPay None (Some plain_webapp)) = [] \<and>
   navigations (openInChatPay (Some []) None) = []"
  using pay_without_username [of None "''PRO_MONTH''" "Some plain_webapp"]
        pay_without_username [of "Some []" "''PRO_MONTH''" None]
  by (simp add: falsy_def navigations_def map_filter_simps)

text \<open>
  C10. The two views disagree on the Pro 30-day plan. The plans page shows it at
  \<^verbatim>\<open>300\<close> stars and its button links to the start parameter \<^verbatim>\<open>BUY_PRO_PRO_MONTH\<close>; App
  shows it at \<^verbatim>\<open>1000\<close> stars and its button links to the start parameter \<^verbatim>\<open>BUY_PRO\<close>.
  Neither the prices nor the links are equal, whatever the (non-empty) bot username
  \<open>b # bs\<close> is.
\<close>

theorem pro_month_views_differ:
  "card_title (SubscriptionPlans env ! 0) = ''Pro '' @ em_dash @ '' 30 days'' \<and>
   card_price (SubscriptionPlans env ! 0) = ''300'' @ star \<and>
   navigations (card_onClick (SubscriptionPlans (Some (b # bs)) ! 0)) =
     [''https://t.me/'' @ (b # bs) @ ''?start=BUY_PRO_'' @ ''PRO_MONTH''] \<and>
   Card_title (cards (App env tg) ! 1) = ''Pro'' \<and>
   Card_period (cards (App env tg) ! 1) = ''30 days'' \<and>
   Card_price (cards (App env tg) ! 1) = ''1000'' @ star \<and>
   navigations (Card_onClick (cards (App (Some (b # bs)) tg) ! 1)) =
     [''https://t.me/'' @ (b # bs) @ ''?start=BUY_PRO''] \<and>
   card_price (SubscriptionPlans env ! 0) \<noteq> Card_price (cards (App env tg) ! 1) \<and>
   navigations (card_onClick (SubscriptionPlans (Some (b # bs)) ! 0)) \<noteq>
     navigations (Card_onClick (cards (App (Some (b # bs)) tg) ! 1))"
proof -
  have price: "card_price (SubscriptionPlans env ! 0) = ''300'' @ star"
    by (simp add: SubscriptionPlans_def plans_def digits_def)
  have ttl: "card_title (SubscriptionPlans env ! 0) = ''Pro '' @ em_dash @ '' 30 days''"
    by (simp add: SubscriptionPlans_def plans_def)
  have nav1: "navigations (card_onClick (SubscriptionPlans (Some (b # bs)) ! 0)) =
     [''https://t.me/'' @ (b # bs) @ ''?start=BUY_PRO_'' @ ''PRO_MONTH'']"
    by (simp add: SubscriptionPlans_def plans_def openInChat_set navigations_def
        map_filter_simps)
  have app: "Card_title (cards (App env tg) ! 1) = ''Pro'' \<and>
     Card_period (cards (App env tg) ! 1) = ''30 days'' \<and>
     Card_price (cards (App env tg) ! 1) = ''1000'' @ star"
    by (simp add: App_def)
  have nav2: "navigations (Card_onClick (cards (App (Some (b # bs)) tg) ! 1)) =
     [''https://t.me/'' @ (b # bs) @ ''?start=BUY_PRO'']"
    by (simp add: App_pro_onClick openInChatPay_set navigations_def map_filter_simps)
  have ne1: "card_price (SubscriptionPlans env ! 0) \<noteq> Card_price (cards (App env tg) ! 1)"
    using price app by simp
  have ne2: "navigations (card_onClick (SubscriptionPlans (Some (b # bs)) ! 0)) \<noteq>
     navigations (Card_onClick (cards (App (Some (b # bs)) tg) ! 1))"
    using nav1 nav2 by simp
  from price ttl nav1 app nav2 ne1 ne2 show ?thesis by blast
qed


section \<open>Properties of vite.config.js\<close>

text \<open>
  C7. The dev server is configured with \<^verbatim>\<open>host: true\<close> (all interfaces), port 5173,
  \<^verbatim>\<open>strictPort: true\<close>, and an allowlist of exactly the three entries
  \<^verbatim>\<open>.ngrok-free.app\<close>, \<^verbatim>\<open>.trycloudflare.com\<close> and \<^verbatim>\<open>localhost\<close>.
\<close>

theorem dev_server_config:
  "host (server config) = HostFlag True \<and>
   port (server config) = 5173 \<and>
   strictPort (server config) \<and>
   allowedHosts (server config) = [''.ngrok-free.app'', ''.trycloudflare.com'', ''localhost''] \<and>
   length (allowedHosts (server config)) = 3"
  by (simp add: config_def)

section \<open>Properties of utils/telegram.js\<close>

lemma init_present:
  "Telegram w = Some (Some tg) \<Longrightarrow>
   initTelegramWebApp w = (if has_expand tg then [Expand] else [], Returns (Object tg))"
  by (simp add: initTelegramWebApp_def try_catch_empty_def call_expand_def)

lemma init_absent: "Telegram w = None \<Longrightarrow> initTelegramWebApp w = ([], Returns Null)"
  by (simp add: initTelegramWebApp_def)

lemma init_no_webapp: "Telegram w = Some None \<Longrightarrow> initTelegramWebApp w = ([], Returns Undefined)"
  by (simp add: initTelegramWebApp_def try_catch_empty_def call_expand_def)

lemma send_present:
  "Telegram w = Some (Some tg) \<Longrightarrow>
   sendDataToBot stringify w data =
     (case stringify data of
        Throws \<Rightarrow> ([], Throws)
      | Returns payload \<Rightarrow>
         if has_sendData tg
         then ([SendData payload], if sendData_throws tg payload then Throws else Returns ())
         else ([], Throws))"
  by (simp add: sendDataToBot_def)

lemma send_no_bridge:
  "Telegram w = None \<or> Telegram w = Some None \<Longrightarrow>
   sendDataToBot stringify w data =
     ([ConsoleWarn ''Telegram WebApp not available.''], Returns ())"
  by (auto simp: sendDataToBot_def)

lemma send_calls:
  "Telegram w = Some (Some tg) \<Longrightarrow>
   sendData_calls (fst (sendDataToBot stringify w data)) =
     (case stringify data of
        Throws \<Rightarrow> []
      | Returns payload \<Rightarrow> if has_sendData tg then [payload] else [])"
  by (simp add: send_present sendData_calls_def map_filter_simps split: outcome.splits)

text \<open>
  C5, as the code has it. With the bridge present, \<open>initTelegramWebApp\<close> calls the bridge's
  \<^verbatim>\<open>expand()\<close> once and returns the bridge object. \<open>sendDataToBot\<close> evaluates
  \<^verbatim>\<open>JSON.stringify(data)\<close> and, when that returns, calls the bridge's \<^verbatim>\<open>sendData\<close>
  exactly once, with what was returned; when \<^verbatim>\<open>JSON.stringify(data)\<close> throws,
  \<^verbatim>\<open>sendData\<close> is not called. So the payload is a JSON string exactly when
  \<^verbatim>\<open>JSON.stringify(data)\<close> returns a string, and it is undefined when
  \<^verbatim>\<open>JSON.stringify(data)\<close> returns undefined. (For a bridge object that lacks one of the
  two methods, that method is not called.)
\<close>

theorem bridge_wrappers:
  "Telegram w = Some (Some tg) \<Longrightarrow>
   initTelegramWebApp w = (if has_expand tg then [Expand] else [], Returns (Object tg)) \<and>
   fst (sendDataToBot stringify w data) =
     (case stringify data of
        Throws \<Rightarrow> []
      | Returns payload \<Rightarrow> if has_sendData tg then [SendData payload] else []) \<and>
   ((\<exists>s. sendData_calls (fst (sendDataToBot stringify w data)) = [JsonText s]) \<longleftrightarrow>
      has_sendData tg \<and> (\<exists>s. stringify data = Returns (JsonText s))) \<and>
   (sendData_calls (fst (sendDataToBot stringify w data)) = [JsonUndefined] \<longleftrightarrow>
      has_sendData tg \<and> stringify data = Returns JsonUndefined) \<and>
   (sendData_calls (fst (sendDataToBot stringify w data)) = [] \<longleftrightarrow>
      \<not> has_sendData tg \<or> stringify data = Throws)"
proof -
  assume w: "Telegram w = Some (Some tg)"
  have trace: "fst (sendDataToBot stringify w data) =
     (case stringify data of
        Throws \<Rightarrow> []
      | Returns payload \<Rightarrow> if has_sendData tg then [SendData payload] else [])"
    by (simp add: send_present [OF w] split: outcome.splits)
  have strs: "(\<exists>s. sendData_calls (fst (sendDataToBot stringify w data)) = [JsonText s]) \<longleftrightarrow>
      has_sendData tg \<and> (\<exists>s. stringify data = Returns (JsonText s))"
    by (cases "stringify data") (simp_all add: send_calls [OF w])
  have undef: "sendData_calls (fst (sendDataToBot stringify w data)) = [JsonUndefined] \<longleftrightarrow>
      has_sendData tg \<and> stringify data = Returns JsonUndefined"
    by (cases "stringify data") (simp_all add: send_calls [OF w])
  have none: "sendData_calls (fst (sendDataToBot stringify w data)) = [] \<longleftrightarrow>
      \<not> has_sendData tg \<or> stringify data = Throws"
    by (cases "stringify data") (simp_all add: send_calls [OF w])
  from init_present [OF w] trace strs undef none show ?thesis
    by blast
qed

theorem bridge_wrappers_witness:
  "Telegram (telegram_window plain_webapp) = Some (Some plain_webapp) \<and>
   initTelegramWebApp (telegram_window plain_webapp) = ([Expand], Returns (Object plain_webapp)) \<and>
   fst (sendDataToBot JSON_stringify (telegram_window plain_webapp) (StringValue ''PRO_MONTH'')) =
     [SendData (JsonText ([dquote] @ ''PRO_MONTH'' @ [dquote]))] \<and>
   fst (sendDataToBot JSON_stringify (telegram_window plain_webapp) (BoolValue True)) =
     [SendData (JsonText ''true'')]"
proof -
  have w: "Telegram (telegram_window plain_webapp) = Some (Some plain_webapp)"
    by (simp add: telegram_window_def)
  have s: "JSON_stringify (StringValue ''PRO_MONTH'') =
      Returns (JsonText ([dquote] @ ''PRO_MONTH'' @ [dquote]))"
    by (simp add: QuoteJSONString_def quote_char_def dquote_def backslash_def)
  have h: "has_expand plain_webapp \<and> has_sendData plain_webapp"
    by (simp add: plain_webapp_def)
  show ?thesis
    using bridge_wrappers [OF w, of JSON_stringify "StringValue ''PRO_MONTH''"]
          bridge_wrappers [OF w, of JSON_stringify "BoolValue True"] w s h
    by simp
qed

text \<open>
  The claim as it is written, "for every value the payload sent is a JSON string, never the
  raw value", fails: for undefined, \<^verbatim>\<open>JSON.stringify\<close> returns undefined and that is the
  payload; for a BigInt nothing is sent, because \<^verbatim>\<open>JSON.stringify\<close> throws.
\<close>

theorem bridge_wrappers_counterexample:
  "sendDataToBot JSON_stringify (telegram_window plain_webapp) UndefinedValue =
     ([SendData JsonUndefined], Returns ()) \<and>
   sendDataToBot JSON_stringify (telegram_window plain_webapp) (BigIntValue 1) = ([], Throws)"
  by (simp add: sendDataToBot_def telegram_window_def plain_webapp_def)

text \<open>
  C9, as the code has it. \<open>initTelegramWebApp\<close> never throws: without
  \<^verbatim>\<open>window.Telegram\<close> it returns null and calls nothing, and with the bridge present it
  returns the bridge object whether or not \<^verbatim>\<open>expand()\<close> throws. \<open>sendDataToBot\<close> without
  \<^verbatim>\<open>window.Telegram\<close> logs the warning, returns and never calls \<^verbatim>\<open>sendData\<close>. With
  the bridge present \<open>sendDataToBot\<close> throws exactly when \<^verbatim>\<open>JSON.stringify\<close> throws or
  the call of the bridge's \<^verbatim>\<open>sendData\<close> throws (as it also does when the bridge has no
  such method): neither is guarded.
\<close>

theorem bridge_failures:
  "snd (initTelegramWebApp w) \<noteq> Throws \<and>
   (Telegram w = None \<longrightarrow>
      initTelegramWebApp w = ([], Returns Null) \<and>
      sendDataToBot stringify w data =
        ([ConsoleWarn ''Telegram WebApp not available.''], Returns ()) \<and>
      sendData_calls (fst (sendDataToBot stringify w data)) = []) \<and>
   (Telegram w = Some (Some tg) \<longrightarrow>
      initTelegramWebApp w = (if has_expand tg then [Expand] else [], Returns (Object tg))) \<and>
   (snd (sendDataToBot stringify w data) = Throws \<longleftrightarrow>
      (\<exists>b. Telegram w = Some (Some b) \<and>
           (stringify data = Throws \<or>
            (\<exists>p. stringify data = Returns p \<and> (\<not> has_sendData b \<or> sendData_throws b p)))))"
proof -
  have init: "snd (initTelegramWebApp w) \<noteq> Throws"
    by (simp add: initTelegramWebApp_def try_catch_empty_def split: option.splits)
  have absent: "Telegram w = None \<longrightarrow>
      initTelegramWebApp w = ([], Returns Null) \<and>
      sendDataToBot stringify w data =
        ([ConsoleWarn ''Telegram WebApp not available.''], Returns ()) \<and>
      sendData_calls (fst (sendDataToBot stringify w data)) = []"
    by (simp add: init_absent send_no_bridge sendData_calls_def map_filter_simps)
  have caught: "Telegram w = Some (Some tg) \<longrightarrow>
      initTelegramWebApp w = (if has_expand tg then [Expand] else [], Returns (Object tg))"
    using init_present by blast
  have send: "snd (sendDataToBot stringify w data) = Throws \<longleftrightarrow>
      (\<exists>b. Telegram w = Some (Some b) \<and>
           (stringify data = Throws \<or>
            (\<exists>p. stringify data = Returns p \<and> (\<not> has_sendData b \<or> sendData_throws b p))))"
  proof (cases "\<exists>b. Telegram w = Some (Some b)")
    case True
    then obtain b where b: "Telegram w = Some (Some b)" by blast
    show ?thesis
      by (cases "stringify data") (simp_all add: send_present [OF b] b)
  next
    case False
    then have "Telegram w = None \<or> Telegram w = Some None"
      by (cases "Telegram w") auto
    with False show ?thesis
      by (simp add: send_no_bridge)
  qed
  from init absent caught send show ?thesis by blast
qed

theorem bridge_failures_witness:
  "Telegram browser_window = None \<and>
   initTelegramWebApp browser_window = ([], Returns Null) \<and>
   sendDataToBot JSON_stringify browser_window (StringValue ''hi'') =
     ([ConsoleWarn ''Telegram WebApp not available.''], Returns ()) \<and>
   Telegram (telegram_window failing_webapp) = Some (Some failing_webapp) \<and>
   expand_throws failing_webapp \<and>
   initTelegramWebApp (telegram_window failing_webapp) =
     ([Expand], Returns (Object failing_webapp)) \<and>
   initTelegramWebApp (telegram_window bare_webapp) = ([], Returns (Object bare_webapp))"
  using bridge_failures [of browser_window JSON_stringify "StringValue ''hi''" failing_webapp]
        bridge_failures [of "telegram_window failing_webapp" JSON_stringify "StringValue ''hi''"
                            failing_webapp]
        bridge_failures [of "telegram_window bare_webapp" JSON_stringify "StringValue ''hi''"
                            bare_webapp]
  by (simp add: browser_window_def telegram_window_def failing_webapp_def bare_webapp_def)

text \<open>
  The claim as it is written, "the functions never throw at the public interface", fails
  for \<open>sendDataToBot\<close>: an exception of the bridge's \<^verbatim>\<open>sendData\<close> leaves the function, as
  does the TypeError of \<^verbatim>\<open>JSON.stringify\<close> on a BigInt.
\<close>

theorem bridge_failures_counterexample:
  "sendDataToBot JSON_stringify (telegram_window failing_webapp) (StringValue ''hi'') =
     ([SendData (JsonText ([dquote] @ ''hi'' @ [dquote]))], Throws) \<and>
   sendDataToBot JSON_stringify (telegram_window plain_webapp) (BigIntValue 1) = ([], Throws)"
  by (simp add: sendDataToBot_def telegram_window_def plain_webapp_def failing_webapp_def
      QuoteJSONString_def quote_char_def dquote_def backslash_def)


section \<open>Properties of db/schema.sql\<close>

subsection \<open>What the file declares\<close>

lemma table_names:
  "map tbl_name (tables schema_sql) =
     [''tenants'', ''users'', ''chats'', ''invite_links'', ''join_events'', ''subscriptions'',
      ''payments'']"
  by (simp add: tables_def schema_sql_def tenants_def users_def chats_def invite_links_def
      join_events_def subscriptions_def payments_def)

lemma schema_foreign_keys:
  "foreign_keys (tables schema_sql) =
     [\<lparr>fk_table = ''users'', fk_column = ''tenant_id'', fk_ref_table = ''tenants'',
       fk_ref_column = ''id'', fk_on_delete = Cascade\<rparr>,
      \<lparr>fk_table = ''chats'', fk_column = ''tenant_id'', fk_ref_table = ''tenants'',
       fk_ref_column = ''id'', fk_on_delete = Cascade\<rparr>,
      \<lparr>fk_table = ''invite_links'', fk_column = ''tenant_id'', fk_ref_table = ''tenants'',
       fk_ref_column = ''id'', fk_on_delete = Cascade\<rparr>,
      \<lparr>fk_table = ''invite_links'', fk_column = ''chat_id'', fk_ref_table = ''chats'',
       fk_ref_column = ''id'', fk_on_delete = Cascade\<rparr>,
      \<lparr>fk_table = ''join_events'', fk_column = ''tenant_id'', fk_ref_table = ''tenants'',
       fk_ref_column = ''id'', fk_on_delete = Cascade\<rparr>,
      \<lparr>fk_table = ''join_events'', fk_column = ''chat_id'', fk_ref_table = ''chats'',
       fk_ref_column = ''id'', fk_on_delete = Cascade\<rparr>,
      \<lparr>fk_table = ''join_events'', fk_column = ''invite_link_id'',
       fk_ref_table = ''invite_links'', fk_ref_column = ''id'', fk_on_delete = NoAction\<rparr>,
      \<lparr>fk_table = ''subscriptions'', fk_column = ''tenant_id'', fk_ref_table = ''tenants'',
       fk_ref_column = ''id'', fk_on_delete = Cascade\<rparr>,
      \<lparr>fk_table = ''payments'', fk_column = ''tenant_id'', fk_ref_table = ''tenants'',
       fk_ref_column = ''id'', fk_on_delete = Cascade\<rparr>]"
  by (simp add: foreign_keys_def column_constraints_of_def tables_def schema_sql_def
      tenants_def users_def chats_def invite_links_def join_events_def subscriptions_def
      payments_def id_column_def tenant_id_column_def created_at_column_def col_def)

lemma fk_to_tenants:
  assumes "k \<in> set (foreign_keys (tables schema_sql))" and "fk_ref_table k = ''tenants''"
  shows "fk_column k = ''tenant_id'' \<and> fk_ref_column k = ''id'' \<and> fk_on_delete k = Cascade \<and>
         fk_table k \<noteq> ''tenants''"
  using assms unfolding schema_foreign_keys by auto

lemma fk_from:
  assumes "k \<in> set (foreign_keys (tables schema_sql))"
  shows "fk_table k \<noteq> ''tenants'' \<and> fk_ref_column k = ''id''"
  using assms unfolding schema_foreign_keys by auto

lemma tenant_fk:
  assumes "n \<in> set (map tbl_name (tables schema_sql))" and "n \<noteq> ''tenants''"
  shows "\<lparr>fk_table = n, fk_column = ''tenant_id'', fk_ref_table = ''tenants'',
          fk_ref_column = ''id'', fk_on_delete = Cascade\<rparr> \<in> set (foreign_keys (tables schema_sql))"
  using assms unfolding schema_foreign_keys table_names by auto

lemma admits_table:
  assumes "admits ss d" and "x \<in> set d"
  shows "fst x \<in> set (map tbl_name (tables ss))"
proof -
  from assms obtain t where "lookup_table (tables ss) (fst x) = Some t"
    by (auto simp: admits_def list_all_iff split: option.splits)
  then have "t \<in> set (tables ss) \<and> tbl_name t = fst x"
    by (auto simp: lookup_table_def find_Some_iff)
  then show ?thesis by force
qed

lemma admits_fk:
  assumes "admits ss d" and "x \<in> set d" and "k \<in> set (foreign_keys (tables ss))"
    and "fst x = fk_table k" and "get (snd x) (fk_column k) \<noteq> None"
  shows "\<exists>y\<in>set d. refs k x y"
proof -
  from assms(1) have "fk_ok (foreign_keys (tables ss)) d"
    by (simp add: admits_def)
  then have "\<forall>x\<in>set d. \<forall>k\<in>set (foreign_keys (tables ss)).
      fst x \<noteq> fk_table k \<or> get (snd x) (fk_column k) = None \<or> list_ex (refs k x) d"
    by (simp add: fk_ok_def list_all_iff)
  with assms(2,3) have "fst x \<noteq> fk_table k \<or> get (snd x) (fk_column k) = None \<or>
      list_ex (refs k x) d"
    by blast
  with assms(4,5) show ?thesis
    by (auto simp: list_ex_iff)
qed


subsection \<open>The cascade\<close>

lemma cascade_closed:
  "cascade ks deleted remaining = (deleted', remaining') \<Longrightarrow>
   \<not> list_ex (cascaded ks deleted') remaining'"
proof (induction ks deleted remaining rule: cascade.induct)
  case (1 ks deleted remaining)
  show ?case
  proof (cases "list_ex (cascaded ks deleted) remaining")
    case True
    with "1.prems" have "cascade ks (deleted @ filter (cascaded ks deleted) remaining)
        (filter (\<lambda>x. \<not> cascaded ks deleted x) remaining) = (deleted', remaining')"
      by (subst (asm) cascade.simps) simp
    with "1.IH" True show ?thesis by blast
  next
    case False
    with "1.prems" have "deleted' = deleted \<and> remaining' = remaining"
      by (subst (asm) cascade.simps) simp
    with False show ?thesis by simp
  qed
qed

lemma cascade_split:
  "cascade ks deleted remaining = (deleted', remaining') \<Longrightarrow>
   set deleted' \<union> set remaining' = set deleted \<union> set remaining \<and>
   set deleted \<subseteq> set deleted' \<and>
   (\<exists>q. remaining' = filter q remaining)"
proof (induction ks deleted remaining rule: cascade.induct)
  case (1 ks deleted remaining)
  show ?case
  proof (cases "list_ex (cascaded ks deleted) remaining")
    case True
    with "1.prems" have "cascade ks (deleted @ filter (cascaded ks deleted) remaining)
        (filter (\<lambda>x. \<not> cascaded ks deleted x) remaining) = (deleted', remaining')"
      by (subst (asm) cascade.simps) simp
    from "1.IH" [OF True this]
    have u: "set deleted' \<union> set remaining' =
          set (deleted @ filter (cascaded ks deleted) remaining) \<union>
          set (filter (\<lambda>x. \<not> cascaded ks deleted x) remaining)"
      and s: "set (deleted @ filter (cascaded ks deleted) remaining) \<subseteq> set deleted'"
      and q: "\<exists>q. remaining' = filter q (filter (\<lambda>x. \<not> cascaded ks deleted x) remaining)"
      by blast+
    from u have "set deleted' \<union> set remaining' = set deleted \<union> set remaining"
      by auto
    moreover from s have "set deleted \<subseteq> set deleted'"
      by auto
    moreover from q obtain q0 where
      "remaining' = filter q0 (filter (\<lambda>x. \<not> cascaded ks deleted x) remaining)"
      by blast
    then have "remaining' = filter (\<lambda>x. \<not> cascaded ks deleted x \<and> q0 x) remaining"
      by simp
    then have "\<exists>q. remaining' = filter q remaining"
      by blast
    ultimately show ?thesis by blast
  next
    case False
    with "1.prems" have "deleted' = deleted \<and> remaining' = remaining"
      by (subst (asm) cascade.simps) simp
    moreover have "remaining = filter (\<lambda>x. True) remaining"
      by simp
    ultimately show ?thesis by blast
  qed
qed

lemma cascade_invariant:
  "cascade ks deleted remaining = (deleted', remaining') \<Longrightarrow>
   (\<forall>dl x. (\<forall>y\<in>set dl. good y) \<longrightarrow> x \<in> set d \<longrightarrow> cascaded ks dl x \<longrightarrow> good x) \<Longrightarrow>
   set remaining \<subseteq> set d \<Longrightarrow> \<forall>y\<in>set deleted. good y \<Longrightarrow> \<forall>y\<in>set deleted'. good y"
proof (induction ks deleted remaining rule: cascade.induct)
  case (1 ks deleted remaining)
  show ?case
  proof (cases "list_ex (cascaded ks deleted) remaining")
    case True
    with "1.prems"(1) have run: "cascade ks (deleted @ filter (cascaded ks deleted) remaining)
        (filter (\<lambda>x. \<not> cascaded ks deleted x) remaining) = (deleted', remaining')"
      by (subst (asm) cascade.simps) simp
    have sub: "set (filter (\<lambda>x. \<not> cascaded ks deleted x) remaining) \<subseteq> set d"
      using "1.prems"(3) by auto
    have "\<forall>y\<in>set (filter (cascaded ks deleted) remaining). good y"
    proof
      fix y
      assume "y \<in> set (filter (cascaded ks deleted) remaining)"
      then have "y \<in> set d" and "cascaded ks deleted y"
        using "1.prems"(3) by auto
      then show "good y"
        using "1.prems"(2,4) by blast
    qed
    with "1.prems"(4) have "\<forall>y\<in>set (deleted @ filter (cascaded ks deleted) remaining). good y"
      by auto
    from "1.IH" [OF True run "1.prems"(2) sub this] show ?thesis .
  next
    case False
    with "1.prems"(1) have "deleted' = deleted"
      by (subst (asm) cascade.simps) simp
    with "1.prems"(4) show ?thesis by simp
  qed
qed

subsection \<open>Deleting a tenant\<close>

lemma consistentD:
  assumes "tenant_consistent ss d" and "x \<in> set d" and "y \<in> set d"
    and "k \<in> set (foreign_keys (tables ss))" and "refs k x y" and "fk_ref_table k \<noteq> ''tenants''"
  shows "get (snd x) ''tenant_id'' = get (snd y) ''tenant_id''"
proof -
  from assms(1) have "\<forall>x\<in>set d. \<forall>y\<in>set d. \<forall>k\<in>set (foreign_keys (tables ss)).
      fk_ref_table k = ''tenants'' \<or> \<not> refs k x y \<or>
      get (snd x) ''tenant_id'' = get (snd y) ''tenant_id''"
    by (simp add: tenant_consistent_def list_all_iff)
  with assms(2,3,4) have "fk_ref_table k = ''tenants'' \<or> \<not> refs k x y \<or>
      get (snd x) ''tenant_id'' = get (snd y) ''tenant_id''"
    by blast
  with assms(5,6) show ?thesis by blast
qed

lemma cascade_step_owned:
  assumes con: "tenant_consistent schema_sql d"
    and dl: "\<forall>y\<in>set dl. y \<in> set d \<and> (is_tenant v y \<or> owned_by v y)"
    and x: "x \<in> set d" and c: "cascaded (foreign_keys (tables schema_sql)) dl x"
  shows "x \<in> set d \<and> (is_tenant v x \<or> owned_by v x)"
proof -
  from c obtain k y where k: "k \<in> set (foreign_keys (tables schema_sql))"
    and y: "y \<in> set dl" and r: "refs k x y"
    by (auto simp: cascaded_def list_ex_iff)
  from dl y have yd: "y \<in> set d" and yg: "is_tenant v y \<or> owned_by v y"
    by blast+
  from r have fx: "fst x = fk_table k" and fy: "fst y = fk_ref_table k"
    and eq: "get (snd x) (fk_column k) = get (snd y) (fk_ref_column k)"
    by (simp_all add: refs_def)
  from fk_from [OF k] fx have nt: "fst x \<noteq> ''tenants''"
    by simp
  have "get (snd x) ''tenant_id'' = Some v"
  proof (cases "fk_ref_table k = ''tenants''")
    case True
    with fy yg have "get (snd y) ''id'' = Some v"
      by (auto simp: is_tenant_def owned_by_def)
    with fk_to_tenants [OF k True] eq show ?thesis
      by simp
  next
    case False
    with fy yg have "get (snd y) ''tenant_id'' = Some v"
      by (auto simp: is_tenant_def owned_by_def)
    with consistentD [OF con x yd k r False] show ?thesis
      by simp
  qed
  with nt x show ?thesis
    by (simp add: owned_by_def)
qed

lemma delete_tenant_result:
  assumes adm: "admits schema_sql d" and con: "tenant_consistent schema_sql d"
  shows "delete_tenant schema_sql v d =
         Inr (filter (\<lambda>x. \<not> is_tenant v x \<and> \<not> owned_by v x) d)"
proof -
  define ks where "ks = foreign_keys (tables schema_sql)"
  obtain deleted remaining where
    run: "cascade ks (filter (is_tenant v) d) (filter (\<lambda>x. \<not> is_tenant v x) d) =
          (deleted, remaining)"
    by (cases "cascade ks (filter (is_tenant v) d) (filter (\<lambda>x. \<not> is_tenant v x) d)") blast
  from cascade_split [OF run]
  have un: "set deleted \<union> set remaining = set d"
    and q: "\<exists>q. remaining = filter q (filter (\<lambda>x. \<not> is_tenant v x) d)"
    by auto
  from q obtain q0 where rem: "remaining = filter (\<lambda>x. \<not> is_tenant v x \<and> q0 x) d"
    by auto
  have step: "\<forall>dl x. (\<forall>y\<in>set dl. y \<in> set d \<and> (is_tenant v y \<or> owned_by v y)) \<longrightarrow>
      x \<in> set d \<longrightarrow> cascaded ks dl x \<longrightarrow> x \<in> set d \<and> (is_tenant v x \<or> owned_by v x)"
    using cascade_step_owned [OF con] unfolding ks_def by blast
  have del: "\<forall>y\<in>set deleted. y \<in> set d \<and> (is_tenant v y \<or> owned_by v y)"
    by (rule cascade_invariant [OF run step]) auto
  have closed: "\<not> list_ex (cascaded ks deleted) remaining"
    by (rule cascade_closed [OF run])
  have gone: "\<not> is_tenant v x \<and> \<not> owned_by v x" if x: "x \<in> set remaining" for x
  proof -
    from x rem have xd: "x \<in> set d" and nt: "\<not> is_tenant v x"
      by auto
    have "\<not> owned_by v x"
    proof
      assume o: "owned_by v x"
      define k where "k = \<lparr>fk_table = fst x, fk_column = ''tenant_id'',
        fk_ref_table = ''tenants'', fk_ref_column = ''id'', fk_on_delete = Cascade\<rparr>"
      from o have "fst x \<noteq> ''tenants''"
        by (simp add: owned_by_def)
      with tenant_fk [OF admits_table [OF adm xd]]
      have k: "k \<in> set (foreign_keys (tables schema_sql))"
        by (simp add: k_def)
      have fx: "fst x = fk_table k"
        by (simp add: k_def)
      from o have nn: "get (snd x) (fk_column k) \<noteq> None"
        by (simp add: k_def owned_by_def)
      from admits_fk [OF adm xd k fx nn] obtain y where y: "y \<in> set d" "refs k x y"
        by blast
      from y(2) have "fst y = ''tenants''" and "get (snd x) ''tenant_id'' = get (snd y) ''id''"
        by (simp_all add: refs_def k_def)
      with o have "is_tenant v y"
        by (simp add: is_tenant_def owned_by_def)
      with y rem un have "y \<in> set deleted"
        by auto
      moreover have "fk_on_delete k = Cascade"
        by (simp add: k_def)
      ultimately have "cascaded ks deleted x"
        using y(2) k unfolding cascaded_def list_ex_iff ks_def by blast
      with closed x show False
        by (auto simp: list_ex_iff)
    qed
    with nt show ?thesis by simp
  qed
  have result: "remaining = filter (\<lambda>x. \<not> is_tenant v x \<and> \<not> owned_by v x) d"
    unfolding rem
  proof (rule filter_cong [OF refl])
    fix x assume xd: "x \<in> set d"
    show "(\<not> is_tenant v x \<and> q0 x) = (\<not> is_tenant v x \<and> \<not> owned_by v x)"
    proof
      assume "\<not> is_tenant v x \<and> q0 x"
      with xd rem have "x \<in> set remaining" by simp
      then show "\<not> is_tenant v x \<and> \<not> owned_by v x" by (rule gone)
    next
      assume n: "\<not> is_tenant v x \<and> \<not> owned_by v x"
      with del have "x \<notin> set deleted" by blast
      with un xd have "x \<in> set remaining" by blast
      with rem show "\<not> is_tenant v x \<and> q0 x" by simp
    qed
  qed
  have ok: "fk_ok ks remaining"
    unfolding fk_ok_def list_all_iff
  proof (intro ballI)
    fix x k
    assume x: "x \<in> set remaining" and k: "k \<in> set ks"
    from x un have xd: "x \<in> set d" by blast
    show "fst x \<noteq> fk_table k \<or> get (snd x) (fk_column k) = None \<or> list_ex (refs k x) remaining"
    proof (cases "fst x = fk_table k \<and> get (snd x) (fk_column k) \<noteq> None")
      case False
      then show ?thesis by blast
    next
      case True
      from k have k': "k \<in> set (foreign_keys (tables schema_sql))"
        by (simp add: ks_def)
      from True admits_fk [OF adm xd k'] obtain y where y: "y \<in> set d" "refs k x y"
        by blast
      have "y \<in> set remaining"
      proof (rule ccontr)
        assume "y \<notin> set remaining"
        with y un have yd: "y \<in> set deleted" by blast
        with del have yg: "\<forall>z\<in>set [y]. z \<in> set d \<and> (is_tenant v z \<or> owned_by v z)"
          by simp
        have "x \<in> set d \<and> (is_tenant v x \<or> owned_by v x)"
        proof (cases "fk_ref_table k = ''tenants''")
          case rt: True
          from fk_to_tenants [OF k' rt] have "fk_on_delete k = Cascade"
            by simp
          with y(2) k' have "cascaded (foreign_keys (tables schema_sql)) [y] x"
            unfolding cascaded_def list_ex_iff by auto
          from cascade_step_owned [OF con yg xd this] show ?thesis .
        next
          case rt: False
          from y(2) have fy: "fst y = fk_ref_table k" and fx: "fst x = fk_table k"
            by (simp_all add: refs_def)
          with rt yd del have "get (snd y) ''tenant_id'' = Some v"
            by (auto simp: is_tenant_def owned_by_def)
          with consistentD [OF con xd y(1) k' y(2) rt]
          have "get (snd x) ''tenant_id'' = Some v" by simp
          with fk_from [OF k'] fx xd show ?thesis
            by (simp add: owned_by_def)
        qed
        with gone [OF x] show False by blast
      qed
      with y show ?thesis by (auto simp: list_ex_iff)
    qed
  qed
  from run ok result show ?thesis
    by (simp add: delete_tenant_def delete_where_def ks_def)
qed


subsection \<open>Admitted states\<close>

lemma distinct_filter_map_filter:
  "distinct (filter p (map f xs)) \<Longrightarrow> distinct (filter p (map f (filter q xs)))"
  by (induction xs) auto

lemma rows_of_filter: "rows_of (filter q d) n = map snd (filter q (filter (\<lambda>x. fst x = n) d))"
  by (simp add: rows_of_def conj_commute)

lemma unique_ok_filter:
  assumes "unique_ok t (rows_of d n)"
  shows "unique_ok t (rows_of (filter q d) n)"
proof -
  have "distinct (filter p (map f (map snd (filter q (filter (\<lambda>x. fst x = n) d)))))"
    if "distinct (filter p (map f (map snd (filter (\<lambda>x. fst x = n) d))))"
    for p :: "val option list \<Rightarrow> bool" and f :: "row \<Rightarrow> val option list"
    using distinct_filter_map_filter [of p "f \<circ> snd" "filter (\<lambda>x. fst x = n) d" q] that
    by simp
  with assms show ?thesis
    by (simp add: unique_ok_def rows_of_filter list_all_iff) (simp add: rows_of_def)
qed

lemma admits_filter:
  assumes "admits ss d" and "fk_ok (foreign_keys (tables ss)) (filter q d)"
  shows "admits ss (filter q d)"
proof -
  from assms(1) have rows: "list_all (\<lambda>x. case lookup_table (tables ss) (fst x) of
        None \<Rightarrow> False | Some t \<Rightarrow> row_ok t (snd x)) d"
    and uniq: "list_all (\<lambda>t. unique_ok t (rows_of d (tbl_name t))) (tables ss)"
    by (simp_all add: admits_def)
  from rows have "list_all (\<lambda>x. case lookup_table (tables ss) (fst x) of
        None \<Rightarrow> False | Some t \<Rightarrow> row_ok t (snd x)) (filter q d)"
    by (simp add: list_all_iff)
  moreover from uniq
  have "list_all (\<lambda>t. unique_ok t (rows_of (filter q d) (tbl_name t))) (tables ss)"
    by (simp add: list_all_iff unique_ok_filter)
  ultimately show ?thesis
    using assms(2) by (simp add: admits_def)
qed

lemma delete_where_fk_ok:
  "delete_where ss chosen d = Inr d' \<Longrightarrow> fk_ok (foreign_keys (tables ss)) d'"
  by (auto simp: delete_where_def split: prod.splits if_splits)

lemma tenant_key_count:
  "length (filter (is_tenant v) d) =
   length (filter (\<lambda>k. k = [Some v])
             (filter (\<lambda>k. None \<notin> set k) (map (\<lambda>r. map (get r) [''id'']) (rows_of d ''tenants''))))"
  by (induction d) (auto simp: rows_of_def is_tenant_def)

lemma distinct_count_le_1: "distinct ys \<Longrightarrow> length (filter (\<lambda>k. k = a) ys) \<le> 1"
  by (induction ys) (auto simp: filter_empty_conv)

lemma tenants_unique_keys: "unique_keys tenants = [[''id'']]"
  by (simp add: unique_keys_def tenants_def id_column_def created_at_column_def)

lemma one_tenant:
  assumes adm: "admits schema_sql d" and x: "x \<in> set d" and o: "owned_by v x"
  shows "length (filter (is_tenant v) d) = 1"
proof -
  have "tenants \<in> set (tables schema_sql)"
    by (simp add: tables_def schema_sql_def)
  with adm have "unique_ok tenants (rows_of d (tbl_name tenants))"
    by (simp add: admits_def list_all_iff)
  then have "distinct (filter (\<lambda>k. None \<notin> set k)
      (map (\<lambda>r. map (get r) [''id'']) (rows_of d ''tenants'')))"
    by (simp add: unique_ok_def tenants_unique_keys) (simp add: tenants_def)
  from distinct_count_le_1 [OF this, of "[Some v]"]
  have le: "length (filter (is_tenant v) d) \<le> 1"
    by (simp only: tenant_key_count)
  define k where "k = \<lparr>fk_table = fst x, fk_column = ''tenant_id'',
    fk_ref_table = ''tenants'', fk_ref_column = ''id'', fk_on_delete = Cascade\<rparr>"
  from o have "fst x \<noteq> ''tenants''"
    by (simp add: owned_by_def)
  with tenant_fk [OF admits_table [OF adm x]]
  have k: "k \<in> set (foreign_keys (tables schema_sql))"
    by (simp add: k_def)
  have fx: "fst x = fk_table k"
    by (simp add: k_def)
  from o have nn: "get (snd x) (fk_column k) \<noteq> None"
    by (simp add: k_def owned_by_def)
  from admits_fk [OF adm x k fx nn] obtain y where y: "y \<in> set d" "refs k x y"
    by blast
  from y(2) have "fst y = ''tenants''" and "get (snd x) ''tenant_id'' = get (snd y) ''id''"
    by (simp_all add: refs_def k_def)
  with o have "is_tenant v y"
    by (simp add: is_tenant_def owned_by_def)
  with y(1) have "filter (is_tenant v) d \<noteq> []"
    by (auto simp: filter_empty_conv)
  then have "length (filter (is_tenant v) d) \<noteq> 0"
    by simp
  with le show ?thesis by linarith
qed

lemma schema_tenant_columns:
  "list_all (\<lambda>t. if tbl_name t = ''tenants''
                  then filter (\<lambda>c. col_name c = ''tenant_id'') (tbl_columns t) = []
                  else has_tenant_id t) (tables schema_sql)"
  by (simp add: tables_def schema_sql_def has_tenant_id_def tenants_def users_def chats_def
      invite_links_def join_events_def subscriptions_def payments_def id_column_def
      tenant_id_column_def created_at_column_def col_def)

lemma orphan_rows_tables:
  "map fst orphan_rows =
     [''users'', ''chats'', ''invite_links'', ''join_events'', ''subscriptions'', ''payments'']"
  by (simp add: orphan_rows_def)

lemma orphan_rows_null: "list_all (\<lambda>x. get (snd x) ''tenant_id'' = None) orphan_rows"
  by (simp add: orphan_rows_def get_def)

lemma orphan_rows_admitted: "admits schema_sql orphan_rows"
  by code_simp

lemma delete_tenant_success:
  assumes adm: "admits schema_sql d" and del: "delete_tenant schema_sql v d = Inr d'"
  shows "(\<exists>q. d' = filter q d) \<and> (\<forall>x\<in>set d'. \<not> is_tenant v x \<and> \<not> owned_by v x) \<and>
         admits schema_sql d'"
proof -
  obtain deleted remaining where
    run: "cascade (foreign_keys (tables schema_sql)) (filter (is_tenant v) d)
            (filter (\<lambda>x. \<not> is_tenant v x) d) = (deleted, remaining)"
    by (cases "cascade (foreign_keys (tables schema_sql)) (filter (is_tenant v) d)
                 (filter (\<lambda>x. \<not> is_tenant v x) d)") blast
  with del have d': "d' = remaining"
    by (simp add: delete_tenant_def delete_where_def split: if_splits)
  from del have ok: "fk_ok (foreign_keys (tables schema_sql)) d'"
    unfolding delete_tenant_def by (rule delete_where_fk_ok)
  from cascade_split [OF run] obtain q0 where
    "remaining = filter q0 (filter (\<lambda>x. \<not> is_tenant v x) d)"
    by blast
  with d' have flt: "d' = filter (\<lambda>x. \<not> is_tenant v x \<and> q0 x) d"
    by simp
  from ok have adm': "admits schema_sql d'"
    unfolding flt by (rule admits_filter [OF adm])
  have "\<not> is_tenant v x \<and> \<not> owned_by v x" if x: "x \<in> set d'" for x
  proof -
    from x flt have nt: "\<not> is_tenant v x"
      by simp
    have "\<not> owned_by v x"
    proof
      assume o: "owned_by v x"
      define k where "k = \<lparr>fk_table = fst x, fk_column = ''tenant_id'',
        fk_ref_table = ''tenants'', fk_ref_column = ''id'', fk_on_delete = Cascade\<rparr>"
      from o have "fst x \<noteq> ''tenants''"
        by (simp add: owned_by_def)
      with tenant_fk [OF admits_table [OF adm' x]]
      have k: "k \<in> set (foreign_keys (tables schema_sql))"
        by (simp add: k_def)
      have fx: "fst x = fk_table k"
        by (simp add: k_def)
      from o have nn: "get (snd x) (fk_column k) \<noteq> None"
        by (simp add: k_def owned_by_def)
      from admits_fk [OF adm' x k fx nn] obtain y where y: "y \<in> set d'" "refs k x y"
        by blast
      from y(2) have "fst y = ''tenants''" and "get (snd x) ''tenant_id'' = get (snd y) ''id''"
        by (simp_all add: refs_def k_def)
      with o have "is_tenant v y"
        by (simp add: is_tenant_def owned_by_def)
      with y(1) flt show False
        by simp
    qed
    with nt show ?thesis by simp
  qed
  with flt adm' show ?thesis by blast
qed

text \<open>
  C4, as the schema has it. Every table other than \<^verbatim>\<open>tenants\<close> has exactly one
  \<^verbatim>\<open>tenant_id\<close> column, declared \<^verbatim>\<open>uuid REFERENCES tenants(id) ON DELETE CASCADE\<close> and
  nothing else, so it is nullable: each of these tables admits a row whose \<^verbatim>\<open>tenant_id\<close>
  is \<^verbatim>\<open>NULL\<close>. In a state the schema admits, a row whose \<^verbatim>\<open>tenant_id\<close> is not
  \<^verbatim>\<open>NULL\<close> belongs to exactly one tenant row. A deletion of a tenant row that succeeds
  only removes rows, leaves neither that tenant row nor any row whose \<^verbatim>\<open>tenant_id\<close> is
  that tenant, and leaves a state the schema admits. The deletion is sure to succeed, and
  then removes exactly the tenant row and the rows whose \<^verbatim>\<open>tenant_id\<close> is that tenant,
  when every row has the \<^verbatim>\<open>tenant_id\<close> of the chats and invite links it references.
\<close>

theorem tenant_ownership:
  "list_all (\<lambda>t. if tbl_name t = ''tenants''
                  then filter (\<lambda>c. col_name c = ''tenant_id'') (tbl_columns t) = []
                  else has_tenant_id t) (tables schema_sql) \<and>
   map fst orphan_rows =
     [''users'', ''chats'', ''invite_links'', ''join_events'', ''subscriptions'', ''payments''] \<and>
   list_all (\<lambda>x. get (snd x) ''tenant_id'' = None) orphan_rows \<and>
   admits schema_sql orphan_rows \<and>
   (admits schema_sql d \<longrightarrow>
      (\<forall>x\<in>set d. \<forall>w. owned_by w x \<longrightarrow> length (filter (is_tenant w) d) = 1) \<and>
      (\<forall>d'. delete_tenant schema_sql v d = Inr d' \<longrightarrow>
         (\<exists>q. d' = filter q d) \<and>
         (\<forall>x\<in>set d'. \<not> is_tenant v x \<and> \<not> owned_by v x) \<and>
         admits schema_sql d') \<and>
      (tenant_consistent schema_sql d \<longrightarrow>
         delete_tenant schema_sql v d =
           Inr (filter (\<lambda>x. \<not> is_tenant v x \<and> \<not> owned_by v x) d)))"
proof -
  have owner: "\<forall>x\<in>set d. \<forall>w. owned_by w x \<longrightarrow> length (filter (is_tenant w) d) = 1"
    if "admits schema_sql d"
    using one_tenant [OF that] by blast
  have success: "\<forall>d'. delete_tenant schema_sql v d = Inr d' \<longrightarrow>
         (\<exists>q. d' = filter q d) \<and>
         (\<forall>x\<in>set d'. \<not> is_tenant v x \<and> \<not> owned_by v x) \<and>
         admits schema_sql d'"
    if "admits schema_sql d"
    using delete_tenant_success [OF that] by blast
  have total: "delete_tenant schema_sql v d =
           Inr (filter (\<lambda>x. \<not> is_tenant v x \<and> \<not> owned_by v x) d)"
    if "admits schema_sql d" and "tenant_consistent schema_sql d"
    using that by (rule delete_tenant_result)
  from schema_tenant_columns orphan_rows_tables orphan_rows_null orphan_rows_admitted
    owner success total
  show ?thesis by blast
qed

theorem tenant_ownership_witness:
  "admits schema_sql db_two_tenants \<and>
   tenant_consistent schema_sql db_two_tenants \<and>
   db_two_tenants ! 2 \<in> set db_two_tenants \<and>
   owned_by (VUuid 1) (db_two_tenants ! 2) \<and>
   length (filter (is_tenant (VUuid 1)) db_two_tenants) = 1 \<and>
   delete_tenant schema_sql (VUuid 1) db_two_tenants =
     Inr [(''tenants'', [(''id'', VUuid 2), (''name'', VText ''zeta''),
                         (''owner_user_id'', VBigint 8)]),
          (''users'', [(''id'', VUuid 4), (''tenant_id'', VUuid 2), (''tg_user_id'', VBigint 7)])] \<and>
   admits schema_sql
     [(''tenants'', [(''id'', VUuid 2), (''name'', VText ''zeta''),
                     (''owner_user_id'', VBigint 8)]),
      (''users'', [(''id'', VUuid 4), (''tenant_id'', VUuid 2), (''tg_user_id'', VBigint 7)])] \<and>
   admits schema_sql db_cross_tenant \<and>
   \<not> tenant_consistent schema_sql db_cross_tenant \<and>
   delete_tenant schema_sql (VUuid 2) db_cross_tenant =
     Inr [(''tenants'', [(''id'', VUuid 1), (''name'', VText ''acme''),
                         (''owner_user_id'', VBigint 7)]),
          (''invite_links'', [(''id'', VUuid 6), (''tenant_id'', VUuid 1),
                               (''invite_link'', VText ''https://t.me/+abc'')])] \<and>
   admits schema_sql
     [(''tenants'', [(''id'', VUuid 1), (''name'', VText ''acme''),
                     (''owner_user_id'', VBigint 7)]),
      (''invite_links'', [(''id'', VUuid 6), (''tenant_id'', VUuid 1),
                           (''invite_link'', VText ''https://t.me/+abc'')])]"
proof -
  have a: "admits schema_sql db_two_tenants"
    by code_simp
  have c: "tenant_consistent schema_sql db_two_tenants"
    by code_simp
  have o: "owned_by (VUuid 1) (db_two_tenants ! 2)"
    by code_simp
  have m: "db_two_tenants ! 2 \<in> set db_two_tenants"
    by (simp add: db_two_tenants_def)
  have f: "filter (\<lambda>x. \<not> is_tenant (VUuid 1) x \<and> \<not> owned_by (VUuid 1) x) db_two_tenants =
     [(''tenants'', [(''id'', VUuid 2), (''name'', VText ''zeta''),
                     (''owner_user_id'', VBigint 8)]),
      (''users'', [(''id'', VUuid 4), (''tenant_id'', VUuid 2), (''tg_user_id'', VBigint 7)])]"
    by code_simp
  have a2: "admits schema_sql db_cross_tenant"
    by code_simp
  have c2: "\<not> tenant_consistent schema_sql db_cross_tenant"
    by code_simp
  have d2: "delete_tenant schema_sql (VUuid 2) db_cross_tenant =
     Inr [(''tenants'', [(''id'', VUuid 1), (''name'', VText ''acme''),
                         (''owner_user_id'', VBigint 7)]),
          (''invite_links'', [(''id'', VUuid 6), (''tenant_id'', VUuid 1),
                               (''invite_link'', VText ''https://t.me/+abc'')])]"
    by code_simp
  from tenant_ownership [of db_two_tenants "VUuid 1"] a c
  have t1: "delete_tenant schema_sql (VUuid 1) db_two_tenants =
      Inr (filter (\<lambda>x. \<not> is_tenant (VUuid 1) x \<and> \<not> owned_by (VUuid 1) x) db_two_tenants)"
    and t2: "\<forall>x\<in>set db_two_tenants. \<forall>w. owned_by w x \<longrightarrow>
      length (filter (is_tenant w) db_two_tenants) = 1"
    and t3: "\<forall>d'. delete_tenant schema_sql (VUuid 1) db_two_tenants = Inr d' \<longrightarrow>
      admits schema_sql d'"
    by blast+
  from tenant_ownership [of db_cross_tenant "VUuid 2"] a2
  have t4: "\<forall>d'. delete_tenant schema_sql (VUuid 2) db_cross_tenant = Inr d' \<longrightarrow>
      admits schema_sql d'"
    by blast
  from t2 m o have t2': "length (filter (is_tenant (VUuid 1)) db_two_tenants) = 1"
    by blast
  from t1 f have t1': "delete_tenant schema_sql (VUuid 1) db_two_tenants =
     Inr [(''tenants'', [(''id'', VUuid 2), (''name'', VText ''zeta''),
                         (''owner_user_id'', VBigint 8)]),
          (''users'', [(''id'', VUuid 4), (''tenant_id'', VUuid 2), (''tg_user_id'', VBigint 7)])]"
    by simp
  from t3 t1' have t3': "admits schema_sql
     [(''tenants'', [(''id'', VUuid 2), (''name'', VText ''zeta''),
                     (''owner_user_id'', VBigint 8)]),
      (''users'', [(''id'', VUuid 4), (''tenant_id'', VUuid 2), (''tg_user_id'', VBigint 7)])]"
    by blast
  from t4 d2 have t4': "admits schema_sql
     [(''tenants'', [(''id'', VUuid 1), (''name'', VText ''acme''),
                     (''owner_user_id'', VBigint 7)]),
      (''invite_links'', [(''id'', VUuid 6), (''tenant_id'', VUuid 1),
                           (''invite_link'', VText ''https://t.me/+abc'')])]"
    by blast
  from a c m o t2' t1' t3' a2 c2 d2 t4' show ?thesis
    by blast
qed

text \<open>
  The claim as it is written, "all rows are partitioned per tenant and deleting a tenant row
  removes every row owned by that tenant", fails. The schema admits a user row whose
  \<^verbatim>\<open>tenant_id\<close> is \<^verbatim>\<open>NULL\<close>, which no tenant owns. It also admits a join event of one
  tenant that names an invite link of another, and then the deletion of the link's tenant
  fails on \<^verbatim>\<open>invite_link_id\<close>, which has no \<^verbatim>\<open>ON DELETE\<close> action.
\<close>

theorem tenant_ownership_counterexample:
  "admits schema_sql db_orphan \<and> \<not> partitioned db_orphan \<and>
   admits schema_sql db_cross_tenant \<and>
   delete_tenant schema_sql (VUuid 1) db_cross_tenant = Inl ForeignKeyViolation"
  by code_simp


subsection \<open>The constraints of the schema\<close>

lemma schema_column_types:
  "list_all (\<lambda>t. list_all (\<lambda>c. col_type c \<in> set builtin_types) (tbl_columns t))
     (tables schema_sql)"
  by (simp add: tables_def schema_sql_def builtin_types_def tenants_def users_def chats_def
      invite_links_def join_events_def subscriptions_def payments_def id_column_def
      tenant_id_column_def created_at_column_def col_def)

lemma schema_table_constraints:
  "table_constraints_of (tables schema_sql) =
     [(''users'', Unique [''tenant_id'', ''tg_user_id'']),
      (''chats'', Unique [''tenant_id'', ''tg_chat_id''])]"
  by (simp add: table_constraints_of_def tables_def schema_sql_def tenants_def users_def
      chats_def invite_links_def join_events_def subscriptions_def payments_def)

lemma schema_column_constraints:
  "column_constraints_of (tables schema_sql) =
     [(''tenants'', ''id'', PrimaryKey),
      (''tenants'', ''name'', NotNull),
      (''tenants'', ''owner_user_id'', NotNull),
      (''users'', ''id'', PrimaryKey),
      (''users'', ''tenant_id'', References ''tenants'' ''id'' Cascade),
      (''users'', ''tg_user_id'', NotNull),
      (''chats'', ''id'', PrimaryKey),
      (''chats'', ''tenant_id'', References ''tenants'' ''id'' Cascade),
      (''chats'', ''tg_chat_id'', NotNull),
      (''invite_links'', ''id'', PrimaryKey),
      (''invite_links'', ''tenant_id'', References ''tenants'' ''id'' Cascade),
      (''invite_links'', ''chat_id'', References ''chats'' ''id'' Cascade),
      (''invite_links'', ''invite_link'', NotNull),
      (''join_events'', ''id'', PrimaryKey),
      (''join_events'', ''tenant_id'', References ''tenants'' ''id'' Cascade),
      (''join_events'', ''chat_id'', References ''chats'' ''id'' Cascade),
      (''join_events'', ''invite_link_id'', References ''invite_links'' ''id'' NoAction),
      (''subscriptions'', ''id'', PrimaryKey),
      (''subscriptions'', ''tenant_id'', References ''tenants'' ''id'' Cascade),
      (''payments'', ''id'', PrimaryKey),
      (''payments'', ''tenant_id'', References ''tenants'' ''id'' Cascade)]"
  by (simp add: column_constraints_of_def tables_def schema_sql_def
      tenants_def users_def chats_def invite_links_def join_events_def subscriptions_def
      payments_def id_column_def tenant_id_column_def created_at_column_def col_def)

text \<open>
  C3, as the schema has it. The file declares exactly the seven tables, every column has a
  built-in type, and the constraints are: the primary key \<^verbatim>\<open>id\<close> of each table, nine
  single-column foreign keys onto such a primary key, the two \<^verbatim>\<open>UNIQUE\<close> table
  constraints on \<^verbatim>\<open>users\<close> and \<^verbatim>\<open>chats\<close>, and five \<^verbatim>\<open>NOT NULL\<close> column constraints.
\<close>

theorem schema_constraints:
  "length schema_sql = 7 \<and>
   map tbl_name (tables schema_sql) =
     [''tenants'', ''users'', ''chats'', ''invite_links'', ''join_events'', ''subscriptions'',
      ''payments''] \<and>
   list_all (\<lambda>t. list_all (\<lambda>c. col_type c \<in> set builtin_types) (tbl_columns t))
     (tables schema_sql) \<and>
   table_constraints_of (tables schema_sql) =
     [(''users'', Unique [''tenant_id'', ''tg_user_id'']),
      (''chats'', Unique [''tenant_id'', ''tg_chat_id''])] \<and>
   filter (\<lambda>x. \<not> is_key_constraint (snd (snd x))) (column_constraints_of (tables schema_sql)) =
     [(''tenants'', ''name'', NotNull),
      (''tenants'', ''owner_user_id'', NotNull),
      (''users'', ''tg_user_id'', NotNull),
      (''chats'', ''tg_chat_id'', NotNull),
      (''invite_links'', ''invite_link'', NotNull)] \<and>
   filter (\<lambda>x. snd (snd x) = PrimaryKey) (column_constraints_of (tables schema_sql)) =
     map (\<lambda>t. (tbl_name t, ''id'', PrimaryKey)) (tables schema_sql) \<and>
   list_all (\<lambda>k. fk_ref_column k = ''id'' \<and> fk_ref_table k \<in> set (map tbl_name (tables schema_sql)))
     (foreign_keys (tables schema_sql)) \<and>
   length (foreign_keys (tables schema_sql)) = 9"
proof -
  have n: "length schema_sql = 7"
    by (simp add: schema_sql_def)
  have nk: "filter (\<lambda>x. \<not> is_key_constraint (snd (snd x)))
       (column_constraints_of (tables schema_sql)) =
     [(''tenants'', ''name'', NotNull),
      (''tenants'', ''owner_user_id'', NotNull),
      (''users'', ''tg_user_id'', NotNull),
      (''chats'', ''tg_chat_id'', NotNull),
      (''invite_links'', ''invite_link'', NotNull)]"
    by (simp add: schema_column_constraints)
  have pk: "filter (\<lambda>x. snd (snd x) = PrimaryKey) (column_constraints_of (tables schema_sql)) =
     map (\<lambda>t. (tbl_name t, ''id'', PrimaryKey)) (tables schema_sql)"
    unfolding schema_column_constraints
    by (simp add: tables_def schema_sql_def tenants_def users_def chats_def invite_links_def
        join_events_def subscriptions_def payments_def)
  have fk: "list_all (\<lambda>k. fk_ref_column k = ''id'' \<and>
        fk_ref_table k \<in> set (map tbl_name (tables schema_sql)))
     (foreign_keys (tables schema_sql))"
    unfolding table_names schema_foreign_keys by simp
  have nfk: "length (foreign_keys (tables schema_sql)) = 9"
    unfolding schema_foreign_keys by simp
  from n table_names schema_column_types schema_table_constraints nk pk fk nfk
  show ?thesis by blast
qed

text \<open>
  The claim as it is written, "the only constraints beyond primary keys and simple foreign
  keys are uniqueness constraints", fails: \<^verbatim>\<open>tenants.name\<close> is \<^verbatim>\<open>NOT NULL\<close>, and a
  tenant row without a name, which breaks no key and no uniqueness constraint, is rejected.
\<close>

theorem schema_constraints_counterexample:
  "(''tenants'', ''name'', NotNull) \<in> set (column_constraints_of (tables schema_sql)) \<and>
   \<not> is_key_constraint NotNull \<and>
   \<not> admits schema_sql [(''tenants'', [(''id'', VUuid 1), (''owner_user_id'', VBigint 7)])]"
  by code_simp

subsection \<open>Payment providers\<close>

lemma provider_columns:
  "col ''provider'' ''text'' \<in> set (tbl_columns subscriptions) \<and>
   col ''method'' ''text'' \<in> set (tbl_columns payments)"
  by (simp add: subscriptions_def payments_def)

lemma unique_ok_short: "length rs \<le> 1 \<Longrightarrow> unique_ok t rs"
proof -
  assume "length rs \<le> 1"
  then have "rs = [] \<or> (\<exists>r. rs = [r])"
    by (cases rs) auto
  then show ?thesis
    by (auto simp: unique_ok_def list_all_iff)
qed

lemma admits_single:
  assumes t: "lookup_table (tables ss) n = Some t" and r: "row_ok t r"
    and k: "\<forall>k\<in>set (foreign_keys (tables ss)). fk_table k = n \<longrightarrow> get r (fk_column k) = None"
  shows "admits ss [(n, r)]"
proof -
  have "length (rows_of [(n, r)] m) \<le> 1" for m
    by (simp add: rows_of_def)
  then have u: "list_all (\<lambda>t. unique_ok t (rows_of [(n, r)] (tbl_name t))) (tables ss)"
    by (simp add: list_all_iff unique_ok_short)
  from k have f: "fk_ok (foreign_keys (tables ss)) [(n, r)]"
    by (auto simp: fk_ok_def list_all_iff)
  from t r u f show ?thesis
    by (simp add: admits_def)
qed

lemma any_provider:
  "admits schema_sql [(''subscriptions'', [(''id'', VUuid n), (''provider'', VText s)])]"
proof (rule admits_single)
  show "lookup_table (tables schema_sql) ''subscriptions'' = Some subscriptions"
    by (simp add: lookup_table_def tables_def schema_sql_def tenants_def users_def chats_def
        invite_links_def join_events_def subscriptions_def)
  show "row_ok subscriptions [(''id'', VUuid n), (''provider'', VText s)]"
    by (simp add: row_ok_def subscriptions_def in_range_def type_of_val_def
        required_column_def get_def id_column_def tenant_id_column_def col_def)
  show "\<forall>k\<in>set (foreign_keys (tables schema_sql)). fk_table k = ''subscriptions'' \<longrightarrow>
          get [(''id'', VUuid n), (''provider'', VText s)] (fk_column k) = None"
    unfolding schema_foreign_keys by (simp add: get_def)
qed

lemma any_method:
  "admits schema_sql [(''payments'', [(''id'', VUuid n), (''method'', VText s)])]"
proof (rule admits_single)
  show "lookup_table (tables schema_sql) ''payments'' = Some payments"
    by (simp add: lookup_table_def tables_def schema_sql_def tenants_def users_def chats_def
        invite_links_def join_events_def subscriptions_def payments_def)
  show "row_ok payments [(''id'', VUuid n), (''method'', VText s)]"
    by (simp add: row_ok_def payments_def in_range_def type_of_val_def
        required_column_def get_def id_column_def tenant_id_column_def created_at_column_def
        col_def)
  show "\<forall>k\<in>set (foreign_keys (tables schema_sql)). fk_table k = ''payments'' \<longrightarrow>
          get [(''id'', VUuid n), (''method'', VText s)] (fk_column k) = None"
    unfolding schema_foreign_keys by (simp add: get_def)
qed

lemma openInChat_navigations:
  "navigations (openInChat env c) =
     (case env of
        None \<Rightarrow> []
      | Some u \<Rightarrow> if u = [] then [] else [''https://t.me/'' @ u @ ''?start=BUY_PRO_'' @ c])"
proof (cases "falsy env")
  case True
  then show ?thesis
    by (cases env)
       (simp_all add: openInChat_falsy navigations_def map_filter_simps falsy_def)
next
  case False
  then obtain u where "env = Some u" "u \<noteq> []"
    by (auto simp: falsy_iff)
  then show ?thesis
    by (simp add: openInChat_set navigations_def map_filter_simps)
qed

lemma openInChatPay_navigations:
  "navigations (openInChatPay env tg) =
     (case env of
        None \<Rightarrow> []
      | Some u \<Rightarrow> if u = [] then [] else [''https://t.me/'' @ u @ ''?start=BUY_PRO''])"
proof (cases "falsy env")
  case True
  then show ?thesis
    by (cases env)
       (simp_all add: openInChatPay_falsy navigations_def map_filter_simps falsy_def)
next
  case False
  then obtain u where "env = Some u" "u \<noteq> []"
    by (auto simp: falsy_iff)
  then show ?thesis
    by (simp add: openInChatPay_set navigations_def map_filter_simps)
qed

text \<open>
  C6, as the code has it. The frontend offers payment in Telegram Stars only: its copy says
  so, and the only navigation of a pay button is to the bot's Telegram deep link. With a
  non-empty bot username \<open>u\<close> each pay button opens exactly one URL,
  \<^verbatim>\<open>https://t.me/\<close> + \<open>u\<close> + \<^verbatim>\<open>?start=BUY_PRO_\<close> + code on the plans page and
  \<^verbatim>\<open>https://t.me/\<close> + \<open>u\<close> + \<^verbatim>\<open>?start=BUY_PRO\<close> in App; with the bot username unset or
  empty it opens nothing; the button of the Free card never opens anything. The schema does
  not restrict the provider: \<^verbatim>\<open>subscriptions.provider\<close> and \<^verbatim>\<open>payments.method\<close> are plain
  \<^verbatim>\<open>text\<close> columns without constraint, and a row with any text in them is admitted.
\<close>

theorem payment_providers:
  "copy (App env tg) = ''Pay safely with Telegram Stars inside the chat. No external providers.'' \<and>
   map card_button (SubscriptionPlans env) =
     [''Pay in Telegram (Stars)'', ''Pay in Telegram (Stars)''] \<and>
   map (\<lambda>k. navigations (card_onClick k)) (SubscriptionPlans env) =
     map (\<lambda>p. case env of
                 None \<Rightarrow> []
               | Some u \<Rightarrow> if u = [] then []
                           else [''https://t.me/'' @ u @ ''?start=BUY_PRO_'' @ code p]) plans \<and>
   map (\<lambda>k. navigations (Card_onClick k)) (cards (App env tg)) =
     [[], case env of
            None \<Rightarrow> []
          | Some u \<Rightarrow> if u = [] then [] else [''https://t.me/'' @ u @ ''?start=BUY_PRO'']] \<and>
   col ''provider'' ''text'' \<in> set (tbl_columns subscriptions) \<and>
   col ''method'' ''text'' \<in> set (tbl_columns payments) \<and>
   admits schema_sql [(''subscriptions'', [(''id'', VUuid n), (''provider'', VText s)])] \<and>
   admits schema_sql [(''payments'', [(''id'', VUuid n), (''method'', VText s)])]"
proof -
  have a: "copy (App env tg) =
      ''Pay safely with Telegram Stars inside the chat. No external providers.''"
    by (simp add: App_def)
  have b: "map card_button (SubscriptionPlans env) =
     [''Pay in Telegram (Stars)'', ''Pay in Telegram (Stars)'']"
    by (simp add: SubscriptionPlans_def plans_def)
  have c: "map (\<lambda>k. navigations (card_onClick k)) (SubscriptionPlans env) =
     map (\<lambda>p. case env of
                 None \<Rightarrow> []
               | Some u \<Rightarrow> if u = [] then []
                           else [''https://t.me/'' @ u @ ''?start=BUY_PRO_'' @ code p]) plans"
    by (simp add: SubscriptionPlans_def openInChat_navigations)
  have d: "map (\<lambda>k. navigations (Card_onClick k)) (cards (App env tg)) =
     [[], case env of
            None \<Rightarrow> []
          | Some u \<Rightarrow> if u = [] then [] else [''https://t.me/'' @ u @ ''?start=BUY_PRO'']]"
    by (simp add: App_def openInChatPay_navigations) (simp add: navigations_def map_filter_simps)
  from a b c d provider_columns any_provider any_method
  show ?thesis by blast
qed

text \<open>
  The claim as it is written, "no schema column admits a payment provider or method other
  than Stars", fails: the schema admits a subscription whose provider is \<^verbatim>\<open>stripe\<close> and a
  payment whose method is \<^verbatim>\<open>card\<close>.
\<close>

theorem payment_providers_counterexample:
  "admits schema_sql db_stripe \<and>
   get (snd (db_stripe ! 1)) ''provider'' = Some (VText ''stripe'') \<and>
   get (snd (db_stripe ! 2)) ''method'' = Some (VText ''card'')"
  by code_simp

end
